theory Spec2Isabelle
  imports Main "HOL-Library.AList" "HOL-Library.Sublist"
begin

section \<open>Python strings\<close>

text \<open>
  A Python \<open>str\<close> is modelled as a \<open>string\<close>: the UTF-8 bytes of the text. Replacing,
  splitting and stripping a character of the ASCII range are exact on such bytes, since no
  byte below 128 occurs inside the encoding of another character. Whitespace is stripped
  as Python does it, with the whitespace characters beyond ASCII in their UTF-8 encoding.
  \<open>upper\<close> and \<open>lower\<close> change the letters of the ASCII range only, which is exact on every
  key and name of the league catalog; a letter beyond ASCII is left as it is.
\<close>

definition upper_chr :: "char \<Rightarrow> char" where
  "upper_chr c =
     (let n = (of_char c :: nat) in if 97 \<le> n \<and> n \<le> 122 then char_of (n - 32) else c)"

definition lower_chr :: "char \<Rightarrow> char" where
  "lower_chr c =
     (let n = (of_char c :: nat) in if 65 \<le> n \<and> n \<le> 90 then char_of (n + 32) else c)"

definition upper :: "string \<Rightarrow> string" where
  "upper s = map upper_chr s"

definition lower :: "string \<Rightarrow> string" where
  "lower s = map lower_chr s"

text \<open>\<open>s.replace(old, new)\<close> for a one-character \<open>old\<close>, the only form the source uses.\<close>

definition replace :: "char \<Rightarrow> string \<Rightarrow> string \<Rightarrow> string" where
  "replace old new s = concat (map (\<lambda>c. if c = old then new else [c]) s)"

text \<open>
  The characters that \<open>str.strip()\<close> removes, each as the bytes of its UTF-8 encoding:
  U+0009 to U+000D, U+001C to U+001F, U+0020, U+0085, U+00A0, U+1680, U+2000 to U+200A,
  U+2028, U+2029, U+202F, U+205F and U+3000.
\<close>

definition whitespace :: "string list" where
  "whitespace =
     [[CHR 0x09], [CHR 0x0A], [CHR 0x0B], [CHR 0x0C], [CHR 0x0D],
      [CHR 0x1C], [CHR 0x1D], [CHR 0x1E], [CHR 0x1F], [CHR 0x20],
      [CHR 0xC2, CHR 0x85], [CHR 0xC2, CHR 0xA0], [CHR 0xE1, CHR 0x9A, CHR 0x80],
      [CHR 0xE2, CHR 0x80, CHR 0x80], [CHR 0xE2, CHR 0x80, CHR 0x81],
      [CHR 0xE2, CHR 0x80, CHR 0x82], [CHR 0xE2, CHR 0x80, CHR 0x83],
      [CHR 0xE2, CHR 0x80, CHR 0x84], [CHR 0xE2, CHR 0x80, CHR 0x85],
      [CHR 0xE2, CHR 0x80, CHR 0x86], [CHR 0xE2, CHR 0x80, CHR 0x87],
      [CHR 0xE2, CHR 0x80, CHR 0x88], [CHR 0xE2, CHR 0x80, CHR 0x89],
      [CHR 0xE2, CHR 0x80, CHR 0x8A], [CHR 0xE2, CHR 0x80, CHR 0xA8],
      [CHR 0xE2, CHR 0x80, CHR 0xA9], [CHR 0xE2, CHR 0x80, CHR 0xAF],
      [CHR 0xE2, CHR 0x81, CHR 0x9F], [CHR 0xE3, CHR 0x80, CHR 0x80]]"

text \<open>Drop from the front of \<open>s\<close>, as long as there is one, a character of \<open>chars\<close>.\<close>

function drop_leading :: "string list \<Rightarrow> string \<Rightarrow> string" where
  "drop_leading chars s =
     (case find (\<lambda>c. c \<noteq> [] \<and> prefix c s) chars of
        None \<Rightarrow> s
      | Some c \<Rightarrow> drop_leading chars (drop (length c) s))"
  by pat_completeness auto
termination
proof (relation "measure (\<lambda>(chars, s). length s)")
  show "wf (measure (\<lambda>(chars :: string list, s :: string). length s))"
    by simp
next
  fix chars :: "string list" and s c :: string
  assume "find (\<lambda>c. c \<noteq> [] \<and> prefix c s) chars = Some c"
  then have "c \<noteq> []" and "prefix c s"
    by (auto simp add: find_Some_iff)
  then have "0 < length c" and "length c \<le> length s"
    by (auto simp add: prefix_length_le)
  then have "length s - length c < length s"
    by arith
  then show "((chars, drop (length c) s), (chars, s)) \<in> measure (\<lambda>(chars, s). length s)"
    by simp
qed

declare drop_leading.simps [simp del]

text \<open>\<open>s.strip()\<close>: the whitespace is dropped from the front, then from the end.\<close>

definition strip :: "string \<Rightarrow> string" where
  "strip s = rev (drop_leading (map rev whitespace) (rev (drop_leading whitespace s)))"

text \<open>\<open>s.rstrip(chars)\<close>: drop from the end every character that occurs in \<open>chars\<close>.\<close>

definition rstrip :: "string \<Rightarrow> string \<Rightarrow> string" where
  "rstrip chars s = rev (dropWhile (\<lambda>c. c \<in> set chars) (rev s))"

text \<open>\<open>s.split(sep)\<close> for a one-character separator: never an empty list.\<close>

fun split :: "char \<Rightarrow> string \<Rightarrow> string list" where
  "split sep [] = [[]]"
| "split sep (c # cs) =
     (if c = sep then [] # split sep cs
      else (case split sep cs of [] \<Rightarrow> [[c]] | w # ws \<Rightarrow> (c # w) # ws))"

section \<open>Config resolver\<close>

text \<open>The process environment, \<open>os.environ\<close>.\<close>

type_synonym environ = "string \<rightharpoonup> string"

text \<open>\<open>os.environ.get(key, default)\<close>.\<close>

definition environ_get :: "environ \<Rightarrow> string \<Rightarrow> string \<Rightarrow> string" where
  "environ_get env key dflt = (case env key of None \<Rightarrow> dflt | Some v \<Rightarrow> v)"

text \<open>
  \<^verbatim>\<open>
  def get_league_env_var_name(league_key: str) -> str:
      var_name = league_key.upper().replace(" ", "_").replace(".", "").replace("-", "_")
      return f"{var_name}_URL"
  \<close>
\<close>

definition get_league_env_var_name :: "string \<Rightarrow> string" where
  "get_league_env_var_name league_key =
     (let var_name = replace CHR ''-'' ''_'' (replace CHR ''.'' '''' (replace CHR '' '' ''_''
                       (upper league_key)))
      in var_name @ ''_URL'')"

text \<open>
  The slug of the constructed URL, line 585 of \<open>web_scrapping.py\<close>:
  \<^verbatim>\<open>league_name.lower().replace(' ', '-').replace('.', '')\<close>
\<close>

definition league_slug :: "string \<Rightarrow> string" where
  "league_slug league_name = replace CHR ''.'' '''' (replace CHR '' '' ''-'' (lower league_name))"

text \<open>
  URL resolution, lines 576 to 589 of \<open>main\<close>. \<open>None\<close> is the \<open>continue\<close> branch: no URL,
  the league is skipped.
  \<^verbatim>\<open>
  env_var_name = get_league_env_var_name(league_key)
  url = os.environ.get(env_var_name, "")
  if not url:
      if base_url:
          url = f"{base_url.rstrip('/')}/{league_name.lower().replace(' ', '-').replace('.', '')}"
      else:
          ...
          continue
  \<close>
\<close>

definition resolve_url :: "environ \<Rightarrow> string \<Rightarrow> string \<Rightarrow> string \<Rightarrow> string option" where
  "resolve_url env base_url league_key league_name =
     (let env_var_name = get_league_env_var_name league_key;
          url = environ_get env env_var_name ''''
      in if url = [] then
           (if base_url \<noteq> [] then Some (rstrip ''/'' base_url @ ''/'' @ league_slug league_name)
            else None)
         else Some url)"

section \<open>Schema and validator\<close>

text \<open>
  The payload is a Python \<open>dict\<close> from an untrusted extraction. What pydantic's type
  parsing (a library, not code of the repository) makes of one field of it is one of four
  things: the key is not there, the value is \<open>None\<close>, the value does not parse as the
  declared type, or it parses to a value of that type. A field with an alias
  (\<open>mp\<close>, \<open>gf\<close>, \<open>ga\<close>, \<open>gd\<close>) is what is found under the alias or, since
  \<open>populate_by_name\<close> is set, under the field name.
\<close>

datatype 'a raw = Absent | Null | Bad | Given 'a

record raw_entry =
  raw_position :: "int raw"
  raw_team_name :: "string raw"
  raw_mp :: "int raw"
  raw_wins :: "int raw"
  raw_draws :: "int raw"
  raw_losses :: "int raw"
  raw_gf :: "int raw"
  raw_ga :: "int raw"
  raw_gd :: "int raw"
  raw_points :: "int raw"

record raw_table =
  raw_sport :: "string raw"
  raw_league :: "string raw"
  raw_season :: "string raw"
  raw_standings :: "raw_entry raw list raw"

record LeagueTableEntry =
  position :: int
  team_name :: string
  matches_played :: int
  wins :: int
  draws :: int
  losses :: int
  goals_for :: int
  goals_against :: int
  goal_difference :: int
  points :: int

record LeagueTableData =
  sport :: string
  league :: string
  season :: "string option"
  standings :: "LeagueTableEntry list"

text \<open>One line of a pydantic \<open>ValidationError\<close>: where, and what.\<close>

datatype loc_item = Attr string | Item nat

datatype err_kind = Missing_field | Type_error | Value_error string

type_synonym line_error = "loc_item list \<times> err_kind"

text \<open>A field declared without a default is required; \<open>None\<close> is no value of its type.\<close>

definition required :: "'a raw \<Rightarrow> err_kind + 'a" where
  "required r =
     (case r of Absent \<Rightarrow> Inl Missing_field | Null \<Rightarrow> Inl Type_error
              | Bad \<Rightarrow> Inl Type_error | Given v \<Rightarrow> Inr v)"

text \<open>\<open>Optional[T]\<close> with \<open>default=None\<close>.\<close>

definition optional :: "'a raw \<Rightarrow> err_kind + 'a option" where
  "optional r =
     (case r of Absent \<Rightarrow> Inr None | Null \<Rightarrow> Inr None
              | Bad \<Rightarrow> Inl Type_error | Given v \<Rightarrow> Inr (Some v))"

text \<open>
  \<^verbatim>\<open>
  @validator('position')
  def validate_position(cls, v):
      if v < 1:
          raise ValueError("Position must be at least 1")
      return v
  \<close>
\<close>

definition validate_position :: "int \<Rightarrow> err_kind + int" where
  "validate_position v = (if v < 1 then Inl (Value_error ''Position must be at least 1'') else Inr v)"

text \<open>
  \<^verbatim>\<open>
  @validator('points')
  def validate_points(cls, v):
      if v < 0:
          raise ValueError("Points cannot be negative")
      return v
  \<close>
\<close>

definition validate_points :: "int \<Rightarrow> err_kind + int" where
  "validate_points v = (if v < 0 then Inl (Value_error ''Points cannot be negative'') else Inr v)"

text \<open>
  \<^verbatim>\<open>
  @validator('team_name')
  def validate_team_name(cls, v):
      if not v or len(v.strip()) == 0:
          raise ValueError("Team name cannot be empty")
      return v.strip()
  \<close>
\<close>

definition validate_team_name :: "string \<Rightarrow> err_kind + string" where
  "validate_team_name v =
     (if v = [] \<or> length (strip v) = 0 then Inl (Value_error ''Team name cannot be empty'')
      else Inr (strip v))"

text \<open>A validator runs on the parsed value, after the type parsing has succeeded.\<close>

definition then_validate :: "err_kind + 'a \<Rightarrow> ('a \<Rightarrow> err_kind + 'b) \<Rightarrow> err_kind + 'b" where
  "then_validate r f = (case r of Inl e \<Rightarrow> Inl e | Inr v \<Rightarrow> f v)"

definition errors_at :: "loc_item list \<Rightarrow> err_kind + 'a \<Rightarrow> line_error list" where
  "errors_at loc r = (case r of Inl e \<Rightarrow> [(loc, e)] | Inr _ \<Rightarrow> [])"

text \<open>
  \<open>LeagueTableEntry(**item)\<close>: every field is parsed and validated in the order of its
  declaration, the errors of all of them are collected, and the object exists only when
  there is none. The location of an error names an aliased field by its alias, whichever
  of the two keys the payload used.
\<close>

definition new_LeagueTableEntry :: "raw_entry \<Rightarrow> line_error list + LeagueTableEntry" where
  "new_LeagueTableEntry r =
     (let f_position = then_validate (required (raw_position r)) validate_position;
          f_team_name = then_validate (required (raw_team_name r)) validate_team_name;
          f_mp = required (raw_mp r);
          f_wins = required (raw_wins r);
          f_draws = required (raw_draws r);
          f_losses = required (raw_losses r);
          f_gf = required (raw_gf r);
          f_ga = required (raw_ga r);
          f_gd = required (raw_gd r);
          f_points = then_validate (required (raw_points r)) validate_points;
          errors = errors_at [Attr ''position''] f_position
                 @ errors_at [Attr ''team_name''] f_team_name
                 @ errors_at [Attr ''mp''] f_mp
                 @ errors_at [Attr ''wins''] f_wins
                 @ errors_at [Attr ''draws''] f_draws
                 @ errors_at [Attr ''losses''] f_losses
                 @ errors_at [Attr ''gf''] f_gf
                 @ errors_at [Attr ''ga''] f_ga
                 @ errors_at [Attr ''gd''] f_gd
                 @ errors_at [Attr ''points''] f_points
      in if errors = [] then
           Inr \<lparr>position = projr f_position, team_name = projr f_team_name,
                matches_played = projr f_mp, wins = projr f_wins, draws = projr f_draws,
                losses = projr f_losses, goals_for = projr f_gf, goals_against = projr f_ga,
                goal_difference = projr f_gd, points = projr f_points\<rparr>
         else Inl errors)"

text \<open>One item of the \<open>standings\<close> list; an item that is no mapping is a type error.\<close>

definition new_item :: "nat \<Rightarrow> raw_entry raw \<Rightarrow> line_error list + LeagueTableEntry" where
  "new_item i x =
     (case x of
        Given r \<Rightarrow>
          (case new_LeagueTableEntry r of
             Inl errors \<Rightarrow> Inl (map (\<lambda>(loc, e). (Attr ''standings'' # Item i # loc, e)) errors)
           | Inr v \<Rightarrow> Inr v)
      | _ \<Rightarrow> Inl [([Attr ''standings'', Item i], Type_error)])"

definition new_standings :: "raw_entry raw list raw \<Rightarrow> line_error list + LeagueTableEntry list" where
  "new_standings r =
     (case required r of
        Inl e \<Rightarrow> Inl [([Attr ''standings''], e)]
      | Inr items \<Rightarrow>
          (let results = map (\<lambda>(i, x). new_item i x) (enumerate 0 items);
               errors = concat (map (\<lambda>res. case res of Inl es \<Rightarrow> es | Inr _ \<Rightarrow> []) results)
           in if errors = [] then Inr (map projr results) else Inl errors))"

text \<open>\<open>LeagueTableData(**payload)\<close>.\<close>

definition new_LeagueTableData :: "raw_table \<Rightarrow> line_error list + LeagueTableData" where
  "new_LeagueTableData p =
     (let f_sport = required (raw_sport p);
          f_league = required (raw_league p);
          f_season = optional (raw_season p);
          f_standings = new_standings (raw_standings p);
          errors = errors_at [Attr ''sport''] f_sport
                 @ errors_at [Attr ''league''] f_league
                 @ errors_at [Attr ''season''] f_season
                 @ (case f_standings of Inl es \<Rightarrow> es | Inr _ \<Rightarrow> [])
      in if errors = [] then
           Inr \<lparr>sport = projr f_sport, league = projr f_league, season = projr f_season,
                standings = projr f_standings\<rparr>
         else Inl errors)"

text \<open>
  \<^verbatim>\<open>
  def get_team_count(self) -> int:
      return len(self.standings)
  def get_top_team(self) -> Optional[LeagueTableEntry]:
      return self.standings[0] if self.standings else None
  \<close>
\<close>

definition get_team_count :: "LeagueTableData \<Rightarrow> nat" where
  "get_team_count d = length (standings d)"

definition get_top_team :: "LeagueTableData \<Rightarrow> LeagueTableEntry option" where
  "get_top_team d = (case standings d of [] \<Rightarrow> None | e # _ \<Rightarrow> Some e)"

text \<open>A payload that holds a well-typed value in every field of an entry.\<close>

definition entry_payload :: "LeagueTableEntry \<Rightarrow> raw_entry" where
  "entry_payload e =
     \<lparr>raw_position = Given (position e), raw_team_name = Given (team_name e),
      raw_mp = Given (matches_played e), raw_wins = Given (wins e), raw_draws = Given (draws e),
      raw_losses = Given (losses e), raw_gf = Given (goals_for e), raw_ga = Given (goals_against e),
      raw_gd = Given (goal_difference e), raw_points = Given (points e)\<rparr>"

text \<open>The table invariant of the specification: positions pairwise distinct and ascending.\<close>

definition spec_table_invariant :: "LeagueTableData \<Rightarrow> bool" where
  "spec_table_invariant d =
     (distinct (map position (standings d)) \<and> sorted (map position (standings d)))"

text \<open>What the three validators leave true of an entry.\<close>

definition entry_ok :: "LeagueTableEntry \<Rightarrow> bool" where
  "entry_ok e = (1 \<le> position e \<and> 0 \<le> points e \<and> team_name e \<noteq> [] \<and> strip (team_name e) = team_name e)"

section \<open>Retry-governed extractor\<close>

text \<open>
  \<^verbatim>\<open>
  class ScraperConfig:
      def __init__(self, max_depth=2, max_pages=10, headless=True, use_proxy=True,
                   user_agent=None, llm_provider="openai/gpt-4o", output_dir="output"):
          ...
          self.output_dir = Path(output_dir)
          self.output_dir.mkdir(exist_ok=True)
  \<close>
\<close>

record ScraperConfig =
  max_depth :: int
  max_pages :: int
  headless :: bool
  use_proxy :: bool
  user_agent :: string
  llm_provider :: string
  output_dir :: string

definition default_user_agent :: string where
  "default_user_agent =
     ''Mozilla/5.0 (Windows NT 10.0; Win64; x64) AppleWebKit/537.36 (KHTML, like Gecko) Chrome/120.0.0.0 Safari/537.36''"

definition default_config :: ScraperConfig where
  "default_config =
     \<lparr>max_depth = 2, max_pages = 10, headless = True, use_proxy = True,
      user_agent = default_user_agent, llm_provider = ''openai/gpt-4o'', output_dir = ''output''\<rparr>"

text \<open>
  What one call of the external crawler does: it raises, it returns a result whose
  \<open>extracted_data\<close> is falsy, or it returns a payload.
\<close>

datatype outcome = Raises | No_data | Data raw_table

text \<open>
  The effects of the program, in the order they happen. \<open>Attempt url i\<close> is the call
  \<open>crawler.arun(url=start_url, ...)\<close> of iteration \<open>i\<close>; \<open>Save_table\<close> and \<open>Save_debug\<close> are the
  two \<open>open(..., 'w')\<close> of the extractor, with the directory, the file name and what is
  dumped; \<open>Sleep\<close> is \<open>asyncio.sleep\<close>; \<open>Mkdir\<close> is the \<open>mkdir(exist_ok=True)\<close> of a new
  \<open>ScraperConfig\<close>. A \<open>Log\<close> event is a call of the logger, which the logging
  configuration of the module (lines 42 to 50) prints and appends to the file
  \<open>scraper.log\<close>. The trace keeps the log lines that tell one outcome from another; the
  other informational lines (such as those of lines 161 to 163 and 234) are calls of the
  same logger and are not in the trace. Writes to the file system are taken to succeed.
\<close>

datatype event =
    Mkdir string
  | Log_missing_key
  | Attempt string nat
  | Save_table string string LeagueTableData
  | Save_debug string string raw_table
  | Log_validation_failed "line_error list"
  | Log_no_data
  | Log_attempt_failed nat
  | Sleep nat
  | Log_exhausted
  | Log_no_url string string
  | Log_scraped string
  | Log_failed string
  | Log_summary nat nat
  | Log_tier int
  | Log_status bool string string

text \<open>
  File names, lines 255 to 257 and 269:
  \<^verbatim>\<open>
  safe_league_name = league_name.lower().replace(" ", "_").replace("/", "_")
  filename = config.output_dir / f"{safe_league_name}_table_{timestamp}.json"
  debug_filename = config.output_dir / f"debug_raw_{datetime.now().strftime('%Y%m%d_%H%M%S')}.json"
  \<close>
\<close>

definition table_filename :: "string \<Rightarrow> string \<Rightarrow> string" where
  "table_filename league_name timestamp =
     (let safe_league_name = replace CHR ''/'' ''_'' (replace CHR '' '' ''_'' (lower league_name))
      in safe_league_name @ ''_table_'' @ timestamp @ ''.json'')"

definition debug_filename :: "string \<Rightarrow> string" where
  "debug_filename timestamp = ''debug_raw_'' @ timestamp @ ''.json''"

text \<open>
  The loop \<open>for attempt in range(retries)\<close>, lines 199 to 286, from iteration \<open>attempt\<close> on.
  \<open>arun i\<close> is what the crawler does in iteration \<open>i\<close> and \<open>now i\<close> the formatted time of
  that iteration. The result is the trace of effects and the value returned.
\<close>

function retry_loop ::
  "(nat \<Rightarrow> outcome) \<Rightarrow> (nat \<Rightarrow> string) \<Rightarrow> string \<Rightarrow> string \<Rightarrow> ScraperConfig \<Rightarrow> int \<Rightarrow> bool \<Rightarrow> nat
     \<Rightarrow> event list \<times> LeagueTableData option" where
  "retry_loop arun now start_url league_name config retries save_to_file attempt =
     (if int attempt < retries then
        (case arun attempt of
           Raises \<Rightarrow>
             (let (evs, res) = retry_loop arun now start_url league_name config retries
                                 save_to_file (Suc attempt)
              in (Attempt start_url attempt # Log_attempt_failed (attempt + 1) #
                    (if int attempt < retries - 1 then Sleep (2 ^ attempt) else Log_exhausted) # evs,
                  res))
         | No_data \<Rightarrow>
             (let (evs, res) = retry_loop arun now start_url league_name config retries
                                 save_to_file (Suc attempt)
              in (Attempt start_url attempt # Log_no_data # evs, res))
         | Data payload \<Rightarrow>
             (case new_LeagueTableData payload of
                Inr validated_data \<Rightarrow>
                  (Attempt start_url attempt #
                     (if save_to_file
                      then [Save_table (output_dir config)
                              (table_filename league_name (now attempt)) validated_data]
                      else []),
                   Some validated_data)
              | Inl errors \<Rightarrow>
                  (let (evs, res) = retry_loop arun now start_url league_name config retries
                                      save_to_file (Suc attempt)
                   in (Attempt start_url attempt # Log_validation_failed errors #
                         (if save_to_file
                          then [Save_debug (output_dir config) (debug_filename (now attempt)) payload]
                          else []) @ evs,
                       res))))
      else ([], None))"
  by pat_completeness auto
termination
  by (relation "measure (\<lambda>(arun, now, start_url, league_name, config, retries, save_to_file, attempt).
                  nat (retries - int attempt))") auto

text \<open>\<open>if not api_key\<close>: the variable is unset or empty.\<close>

definition api_key_missing :: "environ \<Rightarrow> bool" where
  "api_key_missing env = (case env ''OPENAI_API_KEY'' of None \<Rightarrow> True | Some k \<Rightarrow> k = [])"

text \<open>
  \<open>scrape_league_table(start_url, league_name, config, retries, save_to_file)\<close>. A call
  without a configuration builds the default one, which makes the output directory.
\<close>

definition scrape_league_table ::
  "environ \<Rightarrow> (nat \<Rightarrow> outcome) \<Rightarrow> (nat \<Rightarrow> string) \<Rightarrow> string \<Rightarrow> string \<Rightarrow> ScraperConfig option \<Rightarrow> int
     \<Rightarrow> bool \<Rightarrow> event list \<times> LeagueTableData option" where
  "scrape_league_table env arun now start_url league_name config retries save_to_file =
     (let (ev0, cfg) = (case config of None \<Rightarrow> ([Mkdir (output_dir default_config)], default_config)
                                      | Some c \<Rightarrow> ([], c))
      in if api_key_missing env then (ev0 @ [Log_missing_key], None)
         else (let (evs, res) = retry_loop arun now start_url league_name cfg retries save_to_file 0
               in (ev0 @ evs, res)))"

text \<open>Counting in a trace.\<close>

definition is_attempt :: "event \<Rightarrow> bool" where
  "is_attempt ev = (case ev of Attempt _ _ \<Rightarrow> True | _ \<Rightarrow> False)"

text \<open>The two artifacts of the extractor: the table file and the debug dump.\<close>

definition is_artifact :: "event \<Rightarrow> bool" where
  "is_artifact ev = (case ev of Save_table _ _ _ \<Rightarrow> True | Save_debug _ _ _ \<Rightarrow> True | _ \<Rightarrow> False)"

text \<open>A line of the log, which goes to \<open>scraper.log\<close>.\<close>

definition is_log :: "event \<Rightarrow> bool" where
  "is_log ev =
     (case ev of Log_missing_key \<Rightarrow> True | Log_validation_failed _ \<Rightarrow> True | Log_no_data \<Rightarrow> True
               | Log_attempt_failed _ \<Rightarrow> True | Log_exhausted \<Rightarrow> True | Log_no_url _ _ \<Rightarrow> True
               | Log_scraped _ \<Rightarrow> True | Log_failed _ \<Rightarrow> True | Log_summary _ _ \<Rightarrow> True
               | Log_tier _ \<Rightarrow> True | Log_status _ _ _ \<Rightarrow> True | _ \<Rightarrow> False)"

text \<open>
  An event that writes a file, and a trace in which no file is written, as the
  specification words it for a call with \<open>save_to_file\<close> off.
\<close>

definition writes_file :: "event \<Rightarrow> bool" where
  "writes_file ev = (is_artifact ev \<or> is_log ev)"

definition spec_no_file_written :: "event list \<Rightarrow> bool" where
  "spec_no_file_written evs = (filter writes_file evs = [])"

definition attempts :: "event list \<Rightarrow> nat" where
  "attempts evs = length (filter is_attempt evs)"

text \<open>The waits of a trace, in order.\<close>

fun sleeps :: "event list \<Rightarrow> nat list" where
  "sleeps [] = []"
| "sleeps (Sleep n # evs) = n # sleeps evs"
| "sleeps (_ # evs) = sleeps evs"

text \<open>An attempt that does not end the call with a result.\<close>

definition attempt_fails :: "outcome \<Rightarrow> bool" where
  "attempt_fails out =
     (case out of Raises \<Rightarrow> True | No_data \<Rightarrow> True | Data payload \<Rightarrow> isl (new_LeagueTableData payload))"

section \<open>Batch orchestrator\<close>

text \<open>
  The catalog, a \<open>dict\<close> in the order of its declaration:
  \<^verbatim>\<open>"Premier League": {"name": "Premier League", "country": "England", "tier": 1, "url": None}\<close>
  and so on. The \<open>url\<close> entry is \<open>None\<close> everywhere and never read.
\<close>

record league_info =
  name :: string
  country :: string
  tier :: int
  url :: "string option"

definition EUROPEAN_LEAGUES :: "(string \<times> league_info) list" where
  "EUROPEAN_LEAGUES =
     [
      (''Premier League'', \<lparr>name = ''Premier League'', country = ''England'', tier = 1, url = None\<rparr>),
      (''La Liga'', \<lparr>name = ''La Liga'', country = ''Spain'', tier = 1, url = None\<rparr>),
      (''Bundesliga'', \<lparr>name = ''Bundesliga'', country = ''Germany'', tier = 1, url = None\<rparr>),
      (''Serie A'', \<lparr>name = ''Serie A'', country = ''Italy'', tier = 1, url = None\<rparr>),
      (''Ligue 1'', \<lparr>name = ''Ligue 1'', country = ''France'', tier = 1, url = None\<rparr>),
      (''Eredivisie'', \<lparr>name = ''Eredivisie'', country = ''Netherlands'', tier = 1, url = None\<rparr>),
      (''Primeira Liga'', \<lparr>name = ''Primeira Liga'', country = ''Portugal'', tier = 1, url = None\<rparr>),
      (''Super Lig'', \<lparr>name = (''S'' @ [CHR 0xC3, CHR 0xBC] @ ''per Lig''), country = ''Turkey'', tier = 1, url = None\<rparr>),
      (''Premier Liga'', \<lparr>name = ''Premier Liga'', country = ''Russia'', tier = 1, url = None\<rparr>),
      (''Belgian First Division A'', \<lparr>name = ''Belgian First Division A'', country = ''Belgium'', tier = 1, url = None\<rparr>),
      (''Super League'', \<lparr>name = ''Super League'', country = ''Greece'', tier = 1, url = None\<rparr>),
      (''Austrian Bundesliga'', \<lparr>name = ''Austrian Bundesliga'', country = ''Austria'', tier = 1, url = None\<rparr>),
      (''Super Liga'', \<lparr>name = ''Super Liga'', country = ''Serbia'', tier = 1, url = None\<rparr>),
      (''Ukrainian Premier League'', \<lparr>name = ''Ukrainian Premier League'', country = ''Ukraine'', tier = 1, url = None\<rparr>),
      (''First League'', \<lparr>name = ''First League'', country = ''Czech Republic'', tier = 1, url = None\<rparr>),
      (''Swiss Super League'', \<lparr>name = ''Swiss Super League'', country = ''Switzerland'', tier = 1, url = None\<rparr>),
      (''EFL Championship'', \<lparr>name = ''EFL Championship'', country = ''England'', tier = 2, url = None\<rparr>),
      (''La Liga 2'', \<lparr>name = ''La Liga 2'', country = ''Spain'', tier = 2, url = None\<rparr>),
      (''2. Bundesliga'', \<lparr>name = ''2. Bundesliga'', country = ''Germany'', tier = 2, url = None\<rparr>),
      (''Serie B'', \<lparr>name = ''Serie B'', country = ''Italy'', tier = 2, url = None\<rparr>),
      (''Ligue 2'', \<lparr>name = ''Ligue 2'', country = ''France'', tier = 2, url = None\<rparr>),
      (''Allsvenskan'', \<lparr>name = ''Allsvenskan'', country = ''Sweden'', tier = 1, url = None\<rparr>),
      (''Eliteserien'', \<lparr>name = ''Eliteserien'', country = ''Norway'', tier = 1, url = None\<rparr>),
      (''Danish Superliga'', \<lparr>name = ''Danish Superliga'', country = ''Denmark'', tier = 1, url = None\<rparr>),
      (''Veikkausliiga'', \<lparr>name = ''Veikkausliiga'', country = ''Finland'', tier = 1, url = None\<rparr>),
      (''Ekstraklasa'', \<lparr>name = ''Ekstraklasa'', country = ''Poland'', tier = 1, url = None\<rparr>),
      (''Liga I'', \<lparr>name = ''Liga I'', country = ''Romania'', tier = 1, url = None\<rparr>),
      (''Prva HNL'', \<lparr>name = ''Prva HNL'', country = ''Croatia'', tier = 1, url = None\<rparr>),
      (''HNL'', \<lparr>name = ''HNL'', country = ''Slovenia'', tier = 1, url = None\<rparr>),
      (''Slovak Super Liga'', \<lparr>name = ''Slovak Super Liga'', country = ''Slovakia'', tier = 1, url = None\<rparr>),
      (''Liga 1'', \<lparr>name = ''Liga 1'', country = ''Bulgaria'', tier = 1, url = None\<rparr>),
      (''Scottish Premiership'', \<lparr>name = ''Scottish Premiership'', country = ''Scotland'', tier = 1, url = None\<rparr>),
      (''League of Ireland Premier Division'', \<lparr>name = ''League of Ireland Premier Division'', country = ''Ireland'', tier = 1, url = None\<rparr>),
      (''Cymru Premier'', \<lparr>name = ''Cymru Premier'', country = ''Wales'', tier = 1, url = None\<rparr>)
     ]"

text \<open>
  \<^verbatim>\<open>
  def get_leagues_by_tier(leagues_dict: dict, tier: int) -> dict:
      return {k: v for k, v in leagues_dict.items() if v.get("tier") == tier}
  \<close>
\<close>

definition get_leagues_by_tier :: "(string \<times> league_info) list \<Rightarrow> int \<Rightarrow> (string \<times> league_info) list" where
  "get_leagues_by_tier leagues_dict t = filter (\<lambda>(k, v). tier v = t) leagues_dict"

datatype py_error = ValueError | KeyError

text \<open>
  \<open>int(s)\<close> on a string: surrounding whitespace is dropped, one sign may lead, then
  decimal digits, where single underscores may stand between digits. The digits are those
  of the ASCII range; \<open>int\<close> also reads the decimal digits of other scripts, which the
  model takes for no integer.
\<close>

definition is_digit :: "char \<Rightarrow> bool" where
  "is_digit c = (let n = (of_char c :: nat) in 48 \<le> n \<and> n \<le> 57)"

definition digits_value :: "string \<Rightarrow> int" where
  "digits_value ds = foldl (\<lambda>acc c. 10 * acc + (int (of_char c) - 48)) 0 ds"

definition py_int :: "string \<Rightarrow> py_error + int" where
  "py_int s =
     (let t = strip s;
          (sgn, body) = (case t of c # r \<Rightarrow> if c = CHR ''-'' then (- 1, r)
                                            else if c = CHR ''+'' then (1, r) else (1, t)
                                 | [] \<Rightarrow> (1, t));
          groups = split CHR ''_'' body
      in if list_all (\<lambda>g. g \<noteq> [] \<and> list_all is_digit g) groups
         then Inr (sgn * digits_value (concat groups)) else Inl ValueError)"

text \<open>The configuration \<open>main\<close> builds, lines 528 to 536.\<close>

definition custom_config :: "environ \<Rightarrow> ScraperConfig" where
  "custom_config env =
     \<lparr>max_depth = 1, max_pages = 5, headless = True, use_proxy = True,
      user_agent = default_user_agent,
      llm_provider = environ_get env ''LLM_PROVIDER'' ''openai/gpt-4o'', output_dir = ''output''\<rparr>"

text \<open>
  The loop over the leagues, lines 571 to 616. \<open>results\<close> is the \<open>dict\<close> built so far, in
  insertion order; \<open>arun k\<close> and \<open>now k\<close> are the crawler and the clock while league \<open>k\<close> is
  scraped. \<open>leagues_to_scrape\<close> is the whole filtered catalog, whose last key decides
  whether the pacing delay follows.
\<close>

fun scrape_leagues ::
  "environ \<Rightarrow> (string \<Rightarrow> nat \<Rightarrow> outcome) \<Rightarrow> (string \<Rightarrow> nat \<Rightarrow> string) \<Rightarrow> string
     \<Rightarrow> (string \<times> league_info) list \<Rightarrow> (string \<times> league_info) list
     \<Rightarrow> (string \<times> LeagueTableData option) list
     \<Rightarrow> event list \<times> (string \<times> LeagueTableData option) list" where
  "scrape_leagues env arun now base_url leagues_to_scrape [] results = ([], results)"
| "scrape_leagues env arun now base_url leagues_to_scrape ((league_key, info) # rest) results =
     (case resolve_url env base_url league_key (name info) of
        None \<Rightarrow>
          (let (evs, res) = scrape_leagues env arun now base_url leagues_to_scrape rest results
           in (Log_no_url (name info) (get_league_env_var_name league_key) # evs, res))
      | Some start_url \<Rightarrow>
          (let (ev1, result) = scrape_league_table env (arun league_key) (now league_key) start_url
                                 (name info) (Some (custom_config env)) 3 True;
               ev2 = (if result \<noteq> None then Log_scraped (name info) else Log_failed (name info));
               ev3 = (if league_key \<noteq> fst (last leagues_to_scrape) then [Sleep 3] else []);
               (evs, res) = scrape_leagues env arun now base_url leagues_to_scrape rest
                              (AList.update league_key result results)
           in (ev1 @ ev2 # ev3 @ evs, res)))"

text \<open>
  The tier groups of the summary, lines 628 to 633: a \<open>dict\<close> from tier to the list of
  \<open>(league_key, result)\<close>, in insertion order. The tier is looked up in the catalog.
\<close>

fun tier_groups ::
  "(string \<times> LeagueTableData option) list \<Rightarrow> (int \<times> (string \<times> LeagueTableData option) list) list
     \<Rightarrow> py_error + (int \<times> (string \<times> LeagueTableData option) list) list" where
  "tier_groups [] groups = Inr groups"
| "tier_groups ((league_key, result) # rest) groups =
     (case map_of EUROPEAN_LEAGUES league_key of
        None \<Rightarrow> Inl KeyError
      | Some info \<Rightarrow>
          (let t = tier info;
               members = (case map_of groups t of None \<Rightarrow> [] | Some ms \<Rightarrow> ms)
           in tier_groups rest (AList.update t (members @ [(league_key, result)]) groups)))"

text \<open>The status lines of one tier, lines 637 to 639.\<close>

fun status_lines :: "(string \<times> LeagueTableData option) list \<Rightarrow> py_error + event list" where
  "status_lines [] = Inr []"
| "status_lines ((league_key, result) # rest) =
     (case map_of EUROPEAN_LEAGUES league_key of
        None \<Rightarrow> Inl KeyError
      | Some info \<Rightarrow>
          (case status_lines rest of
             Inl e \<Rightarrow> Inl e
           | Inr evs \<Rightarrow> Inr (Log_status (result \<noteq> None) (name info) (country info) # evs)))"

fun tier_lines ::
  "(int \<times> (string \<times> LeagueTableData option) list) list \<Rightarrow> int list \<Rightarrow> py_error + event list" where
  "tier_lines groups [] = Inr []"
| "tier_lines groups (t # ts) =
     (case map_of groups t of
        None \<Rightarrow> Inl KeyError
      | Some members \<Rightarrow>
          (case status_lines members of
             Inl e \<Rightarrow> Inl e
           | Inr evs \<Rightarrow>
               (case tier_lines groups ts of
                  Inl e \<Rightarrow> Inl e
                | Inr evs' \<Rightarrow> Inr (Log_tier t # evs @ evs'))))"

text \<open>
  The summary, lines 618 to 641:
  \<^verbatim>\<open>
  successful = sum(1 for r in results.values() if r is not None)
  total = len(leagues_to_scrape)
  logger.info(f"Successfully scraped: {successful}/{total} leagues")
  \<close>
\<close>

definition successful :: "(string \<times> LeagueTableData option) list \<Rightarrow> nat" where
  "successful results = length (filter (\<lambda>(k, r). r \<noteq> None) results)"

definition summary ::
  "(string \<times> league_info) list \<Rightarrow> (string \<times> LeagueTableData option) list \<Rightarrow> py_error + event list" where
  "summary leagues_to_scrape results =
     (case tier_groups results [] of
        Inl e \<Rightarrow> Inl e
      | Inr groups \<Rightarrow>
          (case tier_lines groups (sort (map fst groups)) of
             Inl e \<Rightarrow> Inl e
           | Inr evs \<Rightarrow> Inr (Log_summary (successful results) (length leagues_to_scrape) # evs)))"

text \<open>
  The filters of \<open>main\<close>, lines 546 to 561: the tier, then the allow-list
  \<open>SELECTED_LEAGUES\<close>.
\<close>

definition select_leagues :: "environ \<Rightarrow> int \<Rightarrow> (string \<times> league_info) list" where
  "select_leagues env target_tier =
     (let leagues_to_scrape = (if target_tier > 0 then get_leagues_by_tier EUROPEAN_LEAGUES target_tier
                               else EUROPEAN_LEAGUES);
          selected_leagues = strip (environ_get env ''SELECTED_LEAGUES'' [])
      in if selected_leagues \<noteq> [] then
           (let league_names = map strip (split CHR '','' selected_leagues)
            in filter (\<lambda>(k, v). k \<in> set league_names \<or> name v \<in> set league_names) leagues_to_scrape)
         else leagues_to_scrape)"

text \<open>
  The batch on a given list of leagues: the loop, then the summary. The result is the
  trace and the \<open>results\<close> that \<open>main\<close> returns.
\<close>

definition run_batch ::
  "environ \<Rightarrow> (string \<Rightarrow> nat \<Rightarrow> outcome) \<Rightarrow> (string \<Rightarrow> nat \<Rightarrow> string) \<Rightarrow> (string \<times> league_info) list
     \<Rightarrow> py_error + event list \<times> (string \<times> LeagueTableData option) list" where
  "run_batch env arun now leagues_to_scrape =
     (let base_url = environ_get env ''SPORTS_BASE_URL'' [];
          (evs, results) = scrape_leagues env arun now base_url leagues_to_scrape leagues_to_scrape []
      in case summary leagues_to_scrape results of
           Inl e \<Rightarrow> Inl e
         | Inr evs' \<Rightarrow> Inr (evs @ evs', results))"

text \<open>
  \<open>main()\<close>. An \<open>Inl\<close> is the exception that leaves it: the \<open>ValueError\<close> of a
  \<open>LEAGUE_TIER\<close> that is no integer, raised before any league is visited. The trace of a
  run that ends so is not kept.
\<close>

definition main ::
  "environ \<Rightarrow> (string \<Rightarrow> nat \<Rightarrow> outcome) \<Rightarrow> (string \<Rightarrow> nat \<Rightarrow> string)
     \<Rightarrow> py_error + event list \<times> (string \<times> LeagueTableData option) list" where
  "main env arun now =
     (case py_int (environ_get env ''LEAGUE_TIER'' ''1'') of
        Inl e \<Rightarrow> Inl e
      | Inr target_tier \<Rightarrow>
          (case run_batch env arun now (select_leagues env target_tier) of
             Inl e \<Rightarrow> Inl e
           | Inr (evs, results) \<Rightarrow> Inr (Mkdir (output_dir (custom_config env)) # evs, results)))"

text \<open>What a trace says of the leagues: how many were skipped, how many failed.\<close>

definition skipped :: "event list \<Rightarrow> nat" where
  "skipped evs = length (filter (\<lambda>ev. case ev of Log_no_url _ _ \<Rightarrow> True | _ \<Rightarrow> False) evs)"

definition failed :: "event list \<Rightarrow> nat" where
  "failed evs = length (filter (\<lambda>ev. case ev of Log_failed _ \<Rightarrow> True | _ \<Rightarrow> False) evs)"

text \<open>The count line of the summary, as the pair it prints.\<close>

fun summary_counts :: "event list \<Rightarrow> (nat \<times> nat) option" where
  "summary_counts [] = None"
| "summary_counts (Log_summary s t # evs) = Some (s, t)"
| "summary_counts (_ # evs) = summary_counts evs"

text \<open>
  The lookup key as the specification words it: every space, period and hyphen becomes
  one separator.
\<close>

definition spec_env_var_name :: "string \<Rightarrow> string" where
  "spec_env_var_name league_key =
     map (\<lambda>c. if c \<in> {CHR '' '', CHR ''.'', CHR ''-''} then CHR ''_'' else upper_chr c) league_key
       @ ''_URL''"

section \<open>Example payloads\<close>

text \<open>One row of a table, and payloads built from it.\<close>

definition team_a :: LeagueTableEntry where
  "team_a = \<lparr>position = 1, team_name = ''A'', matches_played = 10, wins = 8, draws = 1, losses = 1,
             goals_for = 20, goals_against = 5, goal_difference = 15, points = 25\<rparr>"

definition payload_without_wins :: raw_table where
  "payload_without_wins =
     \<lparr>raw_sport = Given ''Football'', raw_league = Given ''Premier League'', raw_season = Absent,
      raw_standings = Given [Given ((entry_payload team_a)\<lparr>raw_wins := Absent\<rparr>)]\<rparr>"

definition payload_two_leaders :: raw_table where
  "payload_two_leaders =
     \<lparr>raw_sport = Given ''Football'', raw_league = Given ''Premier League'', raw_season = Absent,
      raw_standings = Given [Given (entry_payload (team_a\<lparr>position := 2\<rparr>)),
                             Given (entry_payload team_a),
                             Given (entry_payload (team_a\<lparr>team_name := ''B''\<rparr>))]\<rparr>"

definition table_two_leaders :: LeagueTableData where
  "table_two_leaders =
     \<lparr>sport = ''Football'', league = ''Premier League'', season = None,
      standings = [team_a\<lparr>position := 2\<rparr>, team_a, team_a\<lparr>team_name := ''B''\<rparr>]\<rparr>"

text \<open>
  The payload that gives every field of every entry a value of its type: sport \<open>s\<close>, league
  \<open>l\<close>, season \<open>ssn\<close> and one standings item for each of \<open>es\<close>, in order.
\<close>

definition payload_of :: "string \<Rightarrow> string \<Rightarrow> string raw \<Rightarrow> LeagueTableEntry list \<Rightarrow> raw_table" where
  "payload_of s l ssn es =
     \<lparr>raw_sport = Given s, raw_league = Given l, raw_season = ssn,
      raw_standings = Given (map (\<lambda>e. Given (entry_payload e)) es)\<rparr>"

text \<open>Whether the crawler returned a payload.\<close>

definition is_data :: "outcome \<Rightarrow> bool" where
  "is_data out = (case out of Data _ \<Rightarrow> True | _ \<Rightarrow> False)"

section \<open>Example worlds\<close>

text \<open>
  An environment that holds the credential, a clock that stands still, and crawlers: one
  that always raises, one that never extracts anything, one that raises twice and then
  returns a valid payload, and one that always returns a payload with negative points.
\<close>

definition env_with_key :: environ where
  "env_with_key = [''OPENAI_API_KEY'' \<mapsto> ''sk-test'']"

definition clock :: "nat \<Rightarrow> string" where
  "clock i = ''20250101_120000''"

definition always_raises :: "nat \<Rightarrow> outcome" where
  "always_raises i = Raises"

definition always_empty :: "nat \<Rightarrow> outcome" where
  "always_empty i = No_data"



definition negative_payload :: raw_table where
  "negative_payload = payload_of ''Football'' ''Premier League'' Absent [team_a\<lparr>points := - 1\<rparr>]"


definition always_negative :: "nat \<Rightarrow> outcome" where
  "always_negative i = Data negative_payload"

section \<open>Traces of a batch\<close>

text \<open>The events of the loop over the leagues and of the summary, as against those of
  the extractor.\<close>

definition is_batch_event :: "event \<Rightarrow> bool" where
  "is_batch_event ev =
     (case ev of Log_no_url _ _ \<Rightarrow> True | Log_scraped _ \<Rightarrow> True | Log_failed _ \<Rightarrow> True
               | Log_summary _ _ \<Rightarrow> True | Log_tier _ \<Rightarrow> True | Log_status _ _ _ \<Rightarrow> True
               | _ \<Rightarrow> False)"

text \<open>The lines of the summary after its count line.\<close>

definition is_summary_event :: "event \<Rightarrow> bool" where
  "is_summary_event ev =
     (case ev of Log_tier _ \<Rightarrow> True | Log_status _ _ _ \<Rightarrow> True | _ \<Rightarrow> False)"





definition env_key_no_url :: environ where
  "env_key_no_url = [''OPENAI_API_KEY'' \<mapsto> ''sk-test'',
                     ''SELECTED_LEAGUES'' \<mapsto> ''Premier League'']"

definition env_key_base :: environ where
  "env_key_base = [''OPENAI_API_KEY'' \<mapsto> ''sk-test'',
                   ''SPORTS_BASE_URL'' \<mapsto> ''https://x.com'',
                   ''SELECTED_LEAGUES'' \<mapsto> ''Premier League'']"

definition all_raise :: "string \<Rightarrow> nat \<Rightarrow> outcome" where
  "all_raise k i = Raises"

definition clocks :: "string \<Rightarrow> nat \<Rightarrow> string" where
  "clocks k i = ''20250101_120000''"

definition premier_league :: "string \<times> league_info" where
  "premier_league =
     (''Premier League'', \<lparr>name = ''Premier League'', country = ''England'', tier = 1, url = None\<rparr>)"

definition la_liga :: "string \<times> league_info" where
  "la_liga = (''La Liga'', \<lparr>name = ''La Liga'', country = ''Spain'', tier = 1, url = None\<rparr>)"

definition env_key_one_url :: environ where
  "env_key_one_url = [''OPENAI_API_KEY'' \<mapsto> ''sk-test'',
                      ''PREMIER_LEAGUE_URL'' \<mapsto> ''https://y.org/pl'']"

definition trace_unconfigured :: "event list" where
  "trace_unconfigured =
     [Mkdir ''output'', Log_no_url ''Premier League'' ''PREMIER_LEAGUE_URL'', Log_summary 0 1]"

definition trace_exhausted :: "event list" where
  "trace_exhausted =
     [Mkdir ''output'',
      Attempt ''https://x.com/premier-league'' 0, Log_attempt_failed 1, Sleep 1,
      Attempt ''https://x.com/premier-league'' 1, Log_attempt_failed 2, Sleep 2,
      Attempt ''https://x.com/premier-league'' 2, Log_attempt_failed 3, Log_exhausted,
      Log_failed ''Premier League'', Log_summary 0 1, Log_tier 1,
      Log_status False ''Premier League'' ''England'']"

definition trace_one_of_two :: "event list" where
  "trace_one_of_two =
     [Attempt ''https://y.org/pl'' 0, Log_attempt_failed 1, Sleep 1,
      Attempt ''https://y.org/pl'' 1, Log_attempt_failed 2, Sleep 2,
      Attempt ''https://y.org/pl'' 2, Log_attempt_failed 3, Log_exhausted,
      Log_failed ''Premier League'', Sleep 3, Log_no_url ''La Liga'' ''LA_LIGA_URL'',
      Log_summary 0 2, Log_tier 1, Log_status False ''Premier League'' ''England'']"



text \<open>Whether URL resolution finds a URL for a league of the catalog.\<close>

definition has_url :: "environ \<Rightarrow> string \<times> league_info \<Rightarrow> bool" where
  "has_url env l =
     (resolve_url env (environ_get env ''SPORTS_BASE_URL'' []) (fst l) (name (snd l)) \<noteq> None)"


section \<open>Properties of the string helpers\<close>

lemma upper_chr_fixes:
  "c \<in> {CHR '' '', CHR ''.'', CHR ''-'', CHR ''_''} \<Longrightarrow> upper_chr c = c"
  by (auto simp: upper_chr_def)

lemma of_char_lower_chr:
  "(of_char (lower_chr c) :: nat) =
     (if 65 \<le> (of_char c :: nat) \<and> (of_char c :: nat) \<le> 90 then of_char c + 32 else of_char c)"
  by (simp add: lower_chr_def Let_def)

lemma of_char_upper_chr:
  "(of_char (upper_chr c) :: nat) =
     (if 97 \<le> (of_char c :: nat) \<and> (of_char c :: nat) \<le> 122 then of_char c - 32 else of_char c)"
  by (auto simp add: upper_chr_def Let_def)

lemma lower_chr_fixes: "c \<in> {CHR '' '', CHR ''.''} \<Longrightarrow> lower_chr c = c"
  by (auto simp: lower_chr_def)

lemma lower_chr_not_sep:
  assumes "c \<notin> {CHR '' '', CHR ''.''}"
  shows "lower_chr c \<notin> {CHR '' '', CHR ''.''}"
proof
  assume a: "lower_chr c \<in> {CHR '' '', CHR ''.''}"
  then have "(of_char (lower_chr c) :: nat) = 32 \<or> (of_char (lower_chr c) :: nat) = 46"
    by auto
  then have "\<not> (65 \<le> (of_char c :: nat) \<and> (of_char c :: nat) \<le> 90)"
    unfolding of_char_lower_chr by (auto split: if_splits)
  then have "lower_chr c = c"
    by (auto simp add: lower_chr_def Let_def)
  with a assms show False by simp
qed

lemma upper_chr_not_sep:
  assumes "c \<notin> {CHR '' '', CHR ''.'', CHR ''-''}"
  shows "upper_chr c \<notin> {CHR '' '', CHR ''.'', CHR ''-''}"
proof
  assume a: "upper_chr c \<in> {CHR '' '', CHR ''.'', CHR ''-''}"
  then have "(of_char (upper_chr c) :: nat) = 32 \<or> (of_char (upper_chr c) :: nat) = 46
      \<or> (of_char (upper_chr c) :: nat) = 45"
    by auto
  then have "\<not> (97 \<le> (of_char c :: nat) \<and> (of_char c :: nat) \<le> 122)"
    unfolding of_char_upper_chr by (auto split: if_splits)
  then have "upper_chr c = c"
    by (auto simp add: upper_chr_def Let_def)
  with a assms show False by simp
qed

lemma replace_Nil: "replace a b [] = []"
  by (simp add: replace_def)

lemma replace_Cons: "replace a b (x # xs) = (if x = a then b else [x]) @ replace a b xs"
  by (simp add: replace_def)

lemma replace_append: "replace a b (xs @ ys) = replace a b xs @ replace a b ys"
  by (simp add: replace_def)

lemma league_slug_Cons:
  "league_slug (c # n) =
     (if c = CHR '' '' then ''-'' else if c = CHR ''.'' then [] else [lower_chr c]) @ league_slug n"
proof -
  have unf: "league_slug (c # n) =
      replace CHR ''.'' [] (if lower_chr c = CHR '' '' then ''-'' else [lower_chr c]) @ league_slug n"
    by (simp only: league_slug_def lower_def list.map replace_Cons replace_append)
  consider "c = CHR '' ''" | "c = CHR ''.''" | "c \<notin> {CHR '' '', CHR ''.''}" by auto
  then show ?thesis
  proof cases
    case 1
    then have l: "lower_chr c = CHR '' ''" using lower_chr_fixes [of c] by simp
    have "replace CHR ''.'' [] ''-'' = ''-''" by (simp add: replace_def)
    with 1 l show ?thesis unfolding unf by simp
  next
    case 2
    then have l: "lower_chr c = CHR ''.''" using lower_chr_fixes [of c] by simp
    have "replace CHR ''.'' [] ''.'' = []" by (simp add: replace_def)
    with 2 l show ?thesis unfolding unf by simp
  next
    case 3
    then have l: "lower_chr c \<noteq> CHR '' ''" "lower_chr c \<noteq> CHR ''.''"
      using lower_chr_not_sep [of c] by auto
    then have "replace CHR ''.'' [] [lower_chr c] = [lower_chr c]" by (simp add: replace_def)
    with 3 l show ?thesis unfolding unf by simp
  qed
qed

lemma league_slug_chars:
  "league_slug n =
     concat (map (\<lambda>c. if c = CHR '' '' then ''-'' else if c = CHR ''.'' then [] else [lower_chr c]) n)"
proof (induction n)
  case Nil
  show ?case by (simp add: league_slug_def lower_def replace_Nil)
next
  case (Cons c n)
  show ?case unfolding league_slug_Cons Cons.IH by simp
qed

lemma dropWhile_eq_replicate:
  "\<exists>m. replicate m c @ dropWhile (\<lambda>x. x = c) xs = xs"
proof (induction xs)
  case Nil
  show ?case by simp
next
  case (Cons x xs)
  then obtain m where m: "replicate m c @ dropWhile (\<lambda>x. x = c) xs = xs" by blast
  show ?case
  proof (cases "x = c")
    case True
    then have "replicate (Suc m) c @ dropWhile (\<lambda>x. x = c) (x # xs) = x # xs"
      by (simp add: m)
    then show ?thesis by blast
  next
    case False
    then have "replicate 0 c @ dropWhile (\<lambda>x. x = c) (x # xs) = x # xs" by simp
    then show ?thesis by blast
  qed
qed

lemma rstrip_slash_eq: "rstrip ''/'' s = rev (dropWhile (\<lambda>x. x = CHR ''/'') (rev s))"
  by (simp add: rstrip_def)

lemma rstrip_slash_suffix: "\<exists>m. s = rstrip ''/'' s @ replicate m CHR ''/''"
proof -
  obtain m where m: "replicate m CHR ''/'' @ dropWhile (\<lambda>x. x = CHR ''/'') (rev s) = rev s"
    using dropWhile_eq_replicate [of "CHR ''/''" "rev s"] by (elim exE)
  have "rev (rev s) = rev (replicate m CHR ''/'' @ dropWhile (\<lambda>x. x = CHR ''/'') (rev s))"
    by (simp only: m)
  also have "\<dots> = rstrip ''/'' s @ replicate m CHR ''/''"
    by (simp only: rstrip_slash_eq rev_append rev_replicate)
  finally have "s = rstrip ''/'' s @ replicate m CHR ''/''"
    by (simp only: rev_rev_ident)
  then show ?thesis by (rule exI)
qed

lemma rstrip_slash_last: "rstrip ''/'' s = [] \<or> last (rstrip ''/'' s) \<noteq> CHR ''/''"
proof (cases "dropWhile (\<lambda>x. x = CHR ''/'') (rev s)")
  case Nil
  then show ?thesis by (simp only: rstrip_slash_eq rev.simps simp_thms)
next
  case (Cons y ys)
  have "\<not> (\<lambda>x. x = CHR ''/'') (hd (dropWhile (\<lambda>x. x = CHR ''/'') (rev s)))"
    by (rule hd_dropWhile) (simp only: Cons list.distinct simp_thms)
  then have "y \<noteq> CHR ''/''"
    unfolding Cons by simp
  then have "last (rev (y # ys)) \<noteq> CHR ''/''"
    by simp
  then show ?thesis by (simp only: rstrip_slash_eq Cons simp_thms)
qed

lemma var_name_Cons:
  "replace CHR ''-'' ''_'' (replace CHR ''.'' [] (replace CHR '' '' ''_'' (upper (c # k)))) =
     (if c = CHR '' '' \<or> c = CHR ''-'' then ''_'' else if c = CHR ''.'' then [] else [upper_chr c])
       @ replace CHR ''-'' ''_'' (replace CHR ''.'' [] (replace CHR '' '' ''_'' (upper k)))"
proof -
  have unf: "replace CHR ''-'' ''_'' (replace CHR ''.'' [] (replace CHR '' '' ''_'' (upper (c # k)))) =
      replace CHR ''-'' ''_'' (replace CHR ''.'' []
        (if upper_chr c = CHR '' '' then ''_'' else [upper_chr c]))
      @ replace CHR ''-'' ''_'' (replace CHR ''.'' [] (replace CHR '' '' ''_'' (upper k)))"
    by (simp only: upper_def list.map replace_Cons replace_append)
  consider "c = CHR '' ''" | "c = CHR ''.''" | "c = CHR ''-''"
    | "c \<notin> {CHR '' '', CHR ''.'', CHR ''-''}" by auto
  then show ?thesis
  proof cases
    case 1
    then have l: "upper_chr c = CHR '' ''" using upper_chr_fixes [of c] by simp
    have "replace CHR ''-'' ''_'' (replace CHR ''.'' [] ''_'') = ''_''" by (simp add: replace_def)
    with 1 l show ?thesis unfolding unf by simp
  next
    case 2
    then have l: "upper_chr c = CHR ''.''" using upper_chr_fixes [of c] by simp
    have "replace CHR ''-'' ''_'' (replace CHR ''.'' [] ''.'') = []" by (simp add: replace_def)
    with 2 l show ?thesis unfolding unf by simp
  next
    case 3
    then have l: "upper_chr c = CHR ''-''" using upper_chr_fixes [of c] by simp
    have "replace CHR ''-'' ''_'' (replace CHR ''.'' [] ''-'') = ''_''" by (simp add: replace_def)
    with 3 l show ?thesis unfolding unf by simp
  next
    case 4
    then have l: "upper_chr c \<noteq> CHR '' ''" "upper_chr c \<noteq> CHR ''.''" "upper_chr c \<noteq> CHR ''-''"
      using upper_chr_not_sep [of c] by auto
    then have "replace CHR ''-'' ''_'' (replace CHR ''.'' [] [upper_chr c]) = [upper_chr c]"
      by (simp add: replace_def)
    with 4 l show ?thesis unfolding unf by simp
  qed
qed

section \<open>The lookup key of a league (C7)\<close>

text \<open>
  C7, as the claim words it, fails: a period is not replaced by a separator, it is deleted.
  The catalog key \<open>2. Bundesliga\<close> gets the lookup key \<open>2_BUNDESLIGA_URL\<close>, the one the
  environment template of the repository lists, where replacing every space, period and
  hyphen would give \<open>2__BUNDESLIGA_URL\<close>; and \<open>A.B\<close> gets \<open>AB_URL\<close>, not \<open>A_B_URL\<close>.
\<close>

theorem env_var_name_period_counterexample:
  "get_league_env_var_name ''2. Bundesliga'' = ''2_BUNDESLIGA_URL''
   \<and> spec_env_var_name ''2. Bundesliga'' = ''2__BUNDESLIGA_URL''
   \<and> get_league_env_var_name ''A.B'' = ''AB_URL''
   \<and> spec_env_var_name ''A.B'' = ''A_B_URL''"
  by code_simp

text \<open>
  C7, amended: \<open>get_league_env_var_name\<close> maps a league key to its lookup key character by
  character: a space and a hyphen each become one underscore, a period is deleted, every
  other character is uppercased, and the suffix \<open>_URL\<close> is appended.
\<close>

theorem env_var_name_chars:
  "get_league_env_var_name league_key =
     concat (map (\<lambda>c. if c = CHR '' '' \<or> c = CHR ''-'' then ''_''
                      else if c = CHR ''.'' then [] else [upper_chr c]) league_key) @ ''_URL''"
proof -
  have "replace CHR ''-'' ''_'' (replace CHR ''.'' [] (replace CHR '' '' ''_'' (upper league_key))) =
     concat (map (\<lambda>c. if c = CHR '' '' \<or> c = CHR ''-'' then ''_''
                      else if c = CHR ''.'' then [] else [upper_chr c]) league_key)"
  proof (induction league_key)
    case Nil
    show ?case by (simp add: upper_def replace_Nil)
  next
    case (Cons c k)
    show ?case unfolding var_name_Cons Cons.IH by simp
  qed
  then show ?thesis by (simp add: get_league_env_var_name_def)
qed

section \<open>URL resolution (C6)\<close>

text \<open>
  C6: the URL of a league is the value of its derived environment variable when that is set
  and not empty. Otherwise, with a base URL configured, it is the base URL without its
  trailing slashes, a slash, and the display name lowercased with every space turned into
  a hyphen and every period removed; \<open>Premier League\<close> under \<open>https://x.com\<close> resolves to
  \<open>https://x.com/premier-league\<close>. With neither source there is no URL, and the loop over
  the leagues skips the league: it logs the warning and goes on with the next one.
\<close>

theorem resolve_url_layers:
  "(env (get_league_env_var_name league_key) = Some u \<and> u \<noteq> []
      \<longrightarrow> resolve_url env base_url league_key league_name = Some u)
   \<and> ((env (get_league_env_var_name league_key) = None \<or> env (get_league_env_var_name league_key) = Some [])
        \<and> base_url \<noteq> []
      \<longrightarrow> resolve_url env base_url league_key league_name
            = Some (rstrip ''/'' base_url @ ''/'' @ league_slug league_name)
          \<and> (\<exists>m. base_url = rstrip ''/'' base_url @ replicate m CHR ''/'')
          \<and> (rstrip ''/'' base_url = [] \<or> last (rstrip ''/'' base_url) \<noteq> CHR ''/'')
          \<and> league_slug league_name
             = concat (map (\<lambda>c. if c = CHR '' '' then ''-'' else if c = CHR ''.'' then []
                                 else [lower_chr c]) league_name))
   \<and> ((env (get_league_env_var_name league_key) = None \<or> env (get_league_env_var_name league_key) = Some [])
        \<and> base_url = []
      \<longrightarrow> resolve_url env base_url league_key league_name = None
          \<and> scrape_leagues env arun now base_url leagues_to_scrape ((league_key, info\<lparr>name := league_name\<rparr>) # rest) results
            = (Log_no_url league_name (get_league_env_var_name league_key)
                 # fst (scrape_leagues env arun now base_url leagues_to_scrape rest results),
               snd (scrape_leagues env arun now base_url leagues_to_scrape rest results)))
   \<and> resolve_url Map.empty ''https://x.com'' ''Premier League'' ''Premier League''
       = Some ''https://x.com/premier-league''"
proof (intro conjI impI)
  assume "env (get_league_env_var_name league_key) = Some u \<and> u \<noteq> []"
  then show "resolve_url env base_url league_key league_name = Some u"
    by (simp add: resolve_url_def environ_get_def)
next
  assume a: "(env (get_league_env_var_name league_key) = None \<or> env (get_league_env_var_name league_key) = Some [])
        \<and> base_url \<noteq> []"
  then show "resolve_url env base_url league_key league_name
            = Some (rstrip ''/'' base_url @ ''/'' @ league_slug league_name)"
    by (auto simp add: resolve_url_def environ_get_def)
  show "\<exists>m. base_url = rstrip ''/'' base_url @ replicate m CHR ''/''"
    by (rule rstrip_slash_suffix)
  show "rstrip ''/'' base_url = [] \<or> last (rstrip ''/'' base_url) \<noteq> CHR ''/''"
    by (rule rstrip_slash_last)
  show "league_slug league_name
             = concat (map (\<lambda>c. if c = CHR '' '' then ''-'' else if c = CHR ''.'' then []
                                 else [lower_chr c]) league_name)"
    by (rule league_slug_chars)
next
  assume a: "(env (get_league_env_var_name league_key) = None \<or> env (get_league_env_var_name league_key) = Some [])
        \<and> base_url = []"
  then show r: "resolve_url env base_url league_key league_name = None"
    by (auto simp add: resolve_url_def environ_get_def)
  show "scrape_leagues env arun now base_url leagues_to_scrape ((league_key, info\<lparr>name := league_name\<rparr>) # rest) results
            = (Log_no_url league_name (get_league_env_var_name league_key)
                 # fst (scrape_leagues env arun now base_url leagues_to_scrape rest results),
               snd (scrape_leagues env arun now base_url leagues_to_scrape rest results))"
    by (simp add: r split_beta)
next
  show "resolve_url Map.empty ''https://x.com'' ''Premier League'' ''Premier League''
       = Some ''https://x.com/premier-league''"
    by code_simp
qed

theorem resolve_url_layers_witness:
  "resolve_url [''PREMIER_LEAGUE_URL'' \<mapsto> ''https://y.org/pl''] ''https://x.com''
       ''Premier League'' ''Premier League'' = Some ''https://y.org/pl''
   \<and> resolve_url Map.empty ''https://x.com//'' ''2. Bundesliga'' ''2. Bundesliga''
       = Some ''https://x.com/2-bundesliga''
   \<and> resolve_url Map.empty [] ''La Liga'' ''La Liga'' = None"
proof -
  have k1: "get_league_env_var_name ''Premier League'' = ''PREMIER_LEAGUE_URL''"
    by code_simp
  have r2: "rstrip ''/'' ''https://x.com//'' @ ''/'' @ league_slug ''2. Bundesliga''
              = ''https://x.com/2-bundesliga''"
    by code_simp
  have h1: "[''PREMIER_LEAGUE_URL'' \<mapsto> ''https://y.org/pl'']
                (get_league_env_var_name ''Premier League'') = Some ''https://y.org/pl''
            \<and> ''https://y.org/pl'' \<noteq> []"
    by (simp add: k1)
  have h2: "(Map.empty (get_league_env_var_name ''2. Bundesliga'') = (None :: string option)
             \<or> Map.empty (get_league_env_var_name ''2. Bundesliga'') = Some [])
            \<and> ''https://x.com//'' \<noteq> []"
    by simp
  have h3: "(Map.empty (get_league_env_var_name ''La Liga'') = (None :: string option)
             \<or> Map.empty (get_league_env_var_name ''La Liga'') = Some [])
            \<and> ([] :: string) = []"
    by simp
  have "resolve_url [''PREMIER_LEAGUE_URL'' \<mapsto> ''https://y.org/pl''] ''https://x.com''
       ''Premier League'' ''Premier League'' = Some ''https://y.org/pl''"
    using h1 resolve_url_layers [where env = "[''PREMIER_LEAGUE_URL'' \<mapsto> ''https://y.org/pl'']"
        and league_key = "''Premier League''" and u = "''https://y.org/pl''"
        and base_url = "''https://x.com''" and league_name = "''Premier League''"]
    by blast
  moreover have "resolve_url Map.empty ''https://x.com//'' ''2. Bundesliga'' ''2. Bundesliga''
       = Some (rstrip ''/'' ''https://x.com//'' @ ''/'' @ league_slug ''2. Bundesliga'')"
    using h2 resolve_url_layers [where env = Map.empty and league_key = "''2. Bundesliga''"
        and base_url = "''https://x.com//''" and league_name = "''2. Bundesliga''"]
    by blast
  moreover have "resolve_url Map.empty [] ''La Liga'' ''La Liga'' = None"
    using h3 resolve_url_layers [where env = Map.empty and league_key = "''La Liga''"
        and base_url = "[]" and league_name = "''La Liga''"]
    by blast
  ultimately show ?thesis by (simp only: r2 simp_thms)
qed

section \<open>Properties of the validator\<close>

lemma drop_leading_done:
  "find (\<lambda>c. c \<noteq> [] \<and> prefix c s) chars = None \<Longrightarrow> drop_leading chars s = s"
  by (subst drop_leading.simps) simp

lemma drop_leading_step:
  "find (\<lambda>c. c \<noteq> [] \<and> prefix c s) chars = Some c \<Longrightarrow>
   drop_leading chars s = drop_leading chars (drop (length c) s)"
  by (subst drop_leading.simps) simp

text \<open>What is left starts with none of the characters, and is an end piece of the input.\<close>

lemma drop_leading_none_left:
  "find (\<lambda>c. c \<noteq> [] \<and> prefix c (drop_leading chars s)) chars = None"
proof (induction chars s rule: drop_leading.induct)
  case (1 chars s)
  show ?case
  proof (cases "find (\<lambda>c. c \<noteq> [] \<and> prefix c s) chars")
    case None
    then show ?thesis by (simp add: drop_leading_done)
  next
    case (Some c)
    with "1.IH" [OF Some] show ?thesis by (simp add: drop_leading_step)
  qed
qed

lemma drop_leading_suffix: "suffix (drop_leading chars s) s"
proof (induction chars s rule: drop_leading.induct)
  case (1 chars s)
  show ?case
  proof (cases "find (\<lambda>c. c \<noteq> [] \<and> prefix c s) chars")
    case None
    then show ?thesis by (simp add: drop_leading_done)
  next
    case (Some c)
    from "1.IH" [OF Some] have "suffix (drop_leading chars (drop (length c) s)) (drop (length c) s)" .
    moreover have "suffix (drop (length c) s) s" by (rule suffix_drop)
    ultimately show ?thesis by (simp add: drop_leading_step [OF Some] suffix_order.trans)
  qed
qed

lemma drop_leading_idem: "drop_leading chars (drop_leading chars s) = drop_leading chars s"
  by (rule drop_leading_done) (rule drop_leading_none_left)

lemma strip_idem: "strip (strip s) = strip s"
proof -
  define x where "x = drop_leading whitespace s"
  define y where "y = rev (drop_leading (map rev whitespace) (rev x))"
  have y: "strip s = y" by (simp add: strip_def x_def y_def)
  have "suffix (drop_leading (map rev whitespace) (rev x)) (rev x)"
    by (rule drop_leading_suffix)
  then have p: "prefix y x"
    by (simp add: y_def suffix_to_prefix)
  have "find (\<lambda>c. c \<noteq> [] \<and> prefix c x) whitespace = None"
    unfolding x_def by (rule drop_leading_none_left)
  then have "\<not> (\<exists>c. c \<in> set whitespace \<and> c \<noteq> [] \<and> prefix c x)"
    by (simp add: find_None_iff)
  with p have "\<not> (\<exists>c. c \<in> set whitespace \<and> c \<noteq> [] \<and> prefix c y)"
    using prefix_order.trans by blast
  then have "find (\<lambda>c. c \<noteq> [] \<and> prefix c y) whitespace = None"
    by (simp add: find_None_iff)
  then have front: "drop_leading whitespace y = y"
    by (rule drop_leading_done)
  have "strip y = rev (drop_leading (map rev whitespace) (rev (drop_leading whitespace y)))"
    by (simp add: strip_def)
  also have "\<dots> = rev (drop_leading (map rev whitespace) (rev y))"
    by (simp only: front)
  also have "\<dots> = rev (drop_leading (map rev whitespace)
                        (drop_leading (map rev whitespace) (rev x)))"
    by (simp add: y_def)
  also have "\<dots> = y"
    by (simp only: drop_leading_idem y_def)
  finally show ?thesis by (simp add: y)
qed

lemma strip_Nil: "strip [] = []"
  by code_simp

lemma strip_examples:
  "strip ''A'' = ''A''" "strip ''B'' = ''B''" "strip ''  A '' = ''A''"
  by code_simp+

text \<open>A no-break space and an ideographic space are stripped like the blank.\<close>

lemma strip_beyond_ascii:
  "strip [CHR 0xC2, CHR 0xA0, CHR '' '', CHR ''A'', CHR 0xE3, CHR 0x80, CHR 0x80] = ''A''"
  "strip [CHR 0xC2, CHR 0xA0] = []"
  by code_simp+

lemma validate_team_name_Inr:
  "validate_team_name v = Inr t \<Longrightarrow> t = strip v \<and> t \<noteq> [] \<and> strip t = t"
  by (auto simp: validate_team_name_def strip_idem split: if_splits)

lemma validate_position_Inr: "validate_position v = Inr x \<Longrightarrow> x = v \<and> 1 \<le> x"
  by (auto simp: validate_position_def split: if_splits)

lemma validate_points_Inr: "validate_points v = Inr x \<Longrightarrow> x = v \<and> 0 \<le> x"
  by (auto simp: validate_points_def split: if_splits)

lemma then_validate_Inr:
  "then_validate (required a) f = Inr x \<Longrightarrow> \<exists>v. a = Given v \<and> f v = Inr x"
  by (cases a) (simp_all add: then_validate_def required_def)

lemma errors_at_Nil: "errors_at loc r = [] \<Longrightarrow> r = Inr (projr r)"
  by (cases r) (simp_all add: errors_at_def)

lemma new_LeagueTableEntry_Inr:
  assumes "new_LeagueTableEntry r = Inr v"
  shows "then_validate (required (raw_position r)) validate_position = Inr (position v)"
    and "then_validate (required (raw_team_name r)) validate_team_name = Inr (team_name v)"
    and "then_validate (required (raw_points r)) validate_points = Inr (points v)"
proof -
  let ?errors = "errors_at [Attr ''position''] (then_validate (required (raw_position r)) validate_position)
                 @ errors_at [Attr ''team_name''] (then_validate (required (raw_team_name r)) validate_team_name)
                 @ errors_at [Attr ''mp''] (required (raw_mp r))
                 @ errors_at [Attr ''wins''] (required (raw_wins r))
                 @ errors_at [Attr ''draws''] (required (raw_draws r))
                 @ errors_at [Attr ''losses''] (required (raw_losses r))
                 @ errors_at [Attr ''gf''] (required (raw_gf r))
                 @ errors_at [Attr ''ga''] (required (raw_ga r))
                 @ errors_at [Attr ''gd''] (required (raw_gd r))
                 @ errors_at [Attr ''points''] (then_validate (required (raw_points r)) validate_points)"
  have e: "?errors = []"
    using assms unfolding new_LeagueTableEntry_def Let_def by (simp split: if_splits)
  have v: "position v = projr (then_validate (required (raw_position r)) validate_position)"
       "team_name v = projr (then_validate (required (raw_team_name r)) validate_team_name)"
       "points v = projr (then_validate (required (raw_points r)) validate_points)"
    using assms e unfolding new_LeagueTableEntry_def Let_def by (auto split: if_splits)
  from e have e1: "errors_at [Attr ''position''] (then_validate (required (raw_position r)) validate_position) = []"
    and e2: "errors_at [Attr ''team_name''] (then_validate (required (raw_team_name r)) validate_team_name) = []"
    and e3: "errors_at [Attr ''points''] (then_validate (required (raw_points r)) validate_points) = []"
    by simp_all
  show "then_validate (required (raw_position r)) validate_position = Inr (position v)"
    unfolding v by (rule errors_at_Nil [OF e1])
  show "then_validate (required (raw_team_name r)) validate_team_name = Inr (team_name v)"
    unfolding v by (rule errors_at_Nil [OF e2])
  show "then_validate (required (raw_points r)) validate_points = Inr (points v)"
    unfolding v by (rule errors_at_Nil [OF e3])
qed

lemma new_LeagueTableEntry_ok:
  assumes "new_LeagueTableEntry r = Inr v"
  shows "entry_ok v"
proof -
  note f = new_LeagueTableEntry_Inr [OF assms]
  from then_validate_Inr [OF f(1)] have "1 \<le> position v"
    by (auto dest: validate_position_Inr)
  moreover from then_validate_Inr [OF f(3)] have "0 \<le> points v"
    by (auto dest: validate_points_Inr)
  moreover from then_validate_Inr [OF f(2)] have "team_name v \<noteq> [] \<and> strip (team_name v) = team_name v"
    by (auto dest: validate_team_name_Inr)
  ultimately show ?thesis by (simp add: entry_ok_def)
qed


lemma new_LeagueTableEntry_Inl: "new_LeagueTableEntry r = Inl es \<Longrightarrow> es \<noteq> []"
  unfolding new_LeagueTableEntry_def Let_def by (auto split: if_splits)

lemma new_item_Inl: "new_item i x = Inl es \<Longrightarrow> es \<noteq> []"
  by (cases x) (auto simp: new_item_def split: sum.splits dest: new_LeagueTableEntry_Inl)

lemma new_item_Inr: "new_item i x = Inr v \<Longrightarrow> entry_ok v"
  by (cases x) (auto simp: new_item_def split: sum.splits dest: new_LeagueTableEntry_ok)

lemma item_errors_Nil:
  "(case new_item i x of Inl es \<Rightarrow> es | Inr _ \<Rightarrow> []) = [] \<Longrightarrow> \<exists>v. new_item i x = Inr v \<and> entry_ok v"
  by (cases "new_item i x") (auto dest: new_item_Inl new_item_Inr)

lemma new_standings_Inl: "new_standings r = Inl es \<Longrightarrow> es \<noteq> []"
  unfolding new_standings_def Let_def by (auto split: sum.splits if_splits)

lemma new_standings_Inr:
  assumes "new_standings r = Inr vs"
  shows "list_all entry_ok vs"
proof -
  from assms obtain items where items: "required r = Inr items"
    unfolding new_standings_def by (auto split: sum.splits)
  define results where "results = map (\<lambda>(i, x). new_item i x) (enumerate 0 items)"
  from assms items have e: "concat (map (\<lambda>res. case res of Inl es \<Rightarrow> es | Inr _ \<Rightarrow> []) results) = []"
    and vs: "vs = map projr results"
    unfolding new_standings_def Let_def results_def by (auto split: if_splits)
  have "\<exists>v. res = Inr v \<and> entry_ok v" if "res \<in> set results" for res
  proof -
    from that obtain i x where res: "res = new_item i x"
      unfolding results_def by auto
    from e that have "(case res of Inl es \<Rightarrow> es | Inr _ \<Rightarrow> []) = []" by auto
    then show ?thesis unfolding res by (rule item_errors_Nil)
  qed
  then have "entry_ok (projr res)" if "res \<in> set results" for res
    using that by fastforce
  then show ?thesis by (simp add: vs list_all_iff)
qed

lemma new_LeagueTableData_standings:
  assumes "new_LeagueTableData p = Inr d"
  shows "new_standings (raw_standings p) = Inr (standings d)"
proof -
  have e: "(case new_standings (raw_standings p) of Inl es \<Rightarrow> es | Inr _ \<Rightarrow> []) = []"
    and d: "standings d = projr (new_standings (raw_standings p))"
    using assms unfolding new_LeagueTableData_def Let_def by (auto split: if_splits)
  from e have "\<exists>vs. new_standings (raw_standings p) = Inr vs"
    by (cases "new_standings (raw_standings p)") (auto dest: new_standings_Inl)
  then show ?thesis by (auto simp: d)
qed

section \<open>The table invariant (C2)\<close>

text \<open>
  C2, as the claim words it, fails: validation checks each entry on its own and never
  compares two of them. A payload whose entries have the positions 2, 1, 1 is accepted, and
  the accepted table has neither distinct nor ascending positions.
\<close>

theorem duplicate_positions_counterexample:
  "new_LeagueTableData payload_two_leaders = Inr table_two_leaders
   \<and> map position (standings table_two_leaders) = [2, 1, 1]
   \<and> \<not> spec_table_invariant table_two_leaders"
  by (simp add: payload_two_leaders_def table_two_leaders_def team_a_def entry_payload_def
      new_LeagueTableData_def new_standings_def new_item_def new_LeagueTableEntry_def
      required_def optional_def then_validate_def errors_at_def validate_position_def
      validate_points_def validate_team_name_def strip_examples enumerate_eq_zip
      spec_table_invariant_def Let_def)

text \<open>
  C2, amended: every \<open>LeagueTableData\<close> value accepted by validation has, in each of its
  standings entries, a position of at least 1, points of at least 0 and a team name that is
  not empty and has no surrounding whitespace.
\<close>

theorem validated_entries_ok:
  "new_LeagueTableData p = Inr d \<Longrightarrow> list_all entry_ok (standings d)"
  by (rule new_standings_Inr) (rule new_LeagueTableData_standings)

theorem validated_entries_ok_witness:
  "new_LeagueTableData payload_two_leaders = Inr table_two_leaders
   \<and> list_all entry_ok (standings table_two_leaders)"
proof -
  have v: "new_LeagueTableData payload_two_leaders = Inr table_two_leaders"
    by (simp add: payload_two_leaders_def table_two_leaders_def team_a_def entry_payload_def
      new_LeagueTableData_def new_standings_def new_item_def new_LeagueTableEntry_def
      required_def optional_def then_validate_def errors_at_def validate_position_def
      validate_points_def validate_team_name_def strip_examples enumerate_eq_zip
      Let_def)
  with validated_entries_ok [OF v] show ?thesis by simp
qed


section \<open>Validation of well-formed payloads (C1)\<close>

lemma new_LeagueTableEntry_accepts:
  assumes "1 \<le> position e" "0 \<le> points e" "strip (team_name e) \<noteq> []"
  shows "new_LeagueTableEntry (entry_payload e) = Inr (e\<lparr>team_name := strip (team_name e)\<rparr>)"
proof -
  from assms(3) have "team_name e \<noteq> []" using strip_Nil by auto
  with assms show ?thesis
    by (cases e)
       (simp add: new_LeagueTableEntry_def entry_payload_def required_def then_validate_def
          errors_at_def validate_position_def validate_points_def validate_team_name_def Let_def)
qed

lemma new_items_accept:
  assumes "list_all (\<lambda>e. 1 \<le> position e \<and> 0 \<le> points e \<and> strip (team_name e) \<noteq> []) es"
  shows "map (\<lambda>(i, x). new_item i x) (enumerate n (map (\<lambda>e. Given (entry_payload e)) es))
           = map (\<lambda>e. Inr (e\<lparr>team_name := strip (team_name e)\<rparr>)) es"
  using assms
proof (induction es arbitrary: n)
  case Nil
  show ?case by simp
next
  case (Cons e es)
  then have "new_LeagueTableEntry (entry_payload e) = Inr (e\<lparr>team_name := strip (team_name e)\<rparr>)"
    by (simp add: new_LeagueTableEntry_accepts)
  then have "new_item n (Given (entry_payload e)) = Inr (e\<lparr>team_name := strip (team_name e)\<rparr>)"
    by (simp add: new_item_def)
  with Cons show ?case by simp
qed

lemma new_standings_accepts:
  assumes "list_all (\<lambda>e. 1 \<le> position e \<and> 0 \<le> points e \<and> strip (team_name e) \<noteq> []) es"
  shows "new_standings (Given (map (\<lambda>e. Given (entry_payload e)) es))
           = Inr (map (\<lambda>e. e\<lparr>team_name := strip (team_name e)\<rparr>) es)"
proof -
  note r = new_items_accept [OF assms, of 0]
  show ?thesis
    apply (simp only: new_standings_def required_def raw.case sum.case Let_def r)
    apply (simp add: comp_def)
    done
qed

text \<open>
  C1, as the claim words it, fails: the three constraints it names are not all that
  validation asks of an entry. The seven other statistics are required fields too; an
  entry with position 1, points 25 and the name \<open>A\<close>, but without \<open>wins\<close>, is rejected.
\<close>

theorem missing_field_counterexample:
  "raw_position ((entry_payload team_a)\<lparr>raw_wins := Absent\<rparr>) = Given 1
   \<and> raw_points ((entry_payload team_a)\<lparr>raw_wins := Absent\<rparr>) = Given 25
   \<and> raw_team_name ((entry_payload team_a)\<lparr>raw_wins := Absent\<rparr>) = Given ''A''
   \<and> strip ''A'' = ''A''
   \<and> new_LeagueTableData payload_without_wins
       = Inl [([Attr ''standings'', Item 0, Attr ''wins''], Missing_field)]"
  by (simp add: payload_without_wins_def team_a_def entry_payload_def
      new_LeagueTableData_def new_standings_def new_item_def new_LeagueTableEntry_def
      required_def optional_def then_validate_def errors_at_def validate_position_def
      validate_points_def validate_team_name_def strip_examples enumerate_eq_zip
      Let_def)

text \<open>
  C1, amended: for every payload that gives every required field a value of its type (sport,
  league, and in each standings entry the ten fields; the season may be missing or \<open>None\<close>)
  and in which every entry has a position of at least 1, points of at least 0 and a team name
  that is not empty after trimming, validation succeeds; the standings of the result are
  the entries of the input, as many and in the same order, each with its team name stripped
  of surrounding whitespace and all other fields unchanged.
\<close>

theorem validation_accepts:
  assumes "list_all (\<lambda>e. 1 \<le> position e \<and> 0 \<le> points e \<and> strip (team_name e) \<noteq> []) es"
    and "ssn \<noteq> Bad"
  shows "new_LeagueTableData (payload_of s l ssn es)
           = Inr \<lparr>sport = s, league = l,
                  season = (case ssn of Given x \<Rightarrow> Some x | _ \<Rightarrow> None),
                  standings = map (\<lambda>e. e\<lparr>team_name := strip (team_name e)\<rparr>) es\<rparr>"
  using assms(2)
  unfolding new_LeagueTableData_def Let_def payload_of_def
  by (cases ssn)
     (simp_all add: new_standings_accepts [OF assms(1)] required_def optional_def errors_at_def)

theorem validation_accepts_witness:
  "new_LeagueTableData (payload_of ''Football'' ''Premier League'' Absent
       [team_a\<lparr>team_name := [CHR 0xC2, CHR 0xA0, CHR '' '', CHR ''A'', CHR 0xE3, CHR 0x80, CHR 0x80]\<rparr>,
        team_a\<lparr>position := 2, team_name := ''B''\<rparr>])
     = Inr \<lparr>sport = ''Football'', league = ''Premier League'', season = None,
            standings = [team_a, team_a\<lparr>position := 2, team_name := ''B''\<rparr>]\<rparr>"
proof -
  note s = strip_beyond_ascii(1) strip_examples(2)
  have h: "list_all (\<lambda>e. 1 \<le> position e \<and> 0 \<le> points e \<and> strip (team_name e) \<noteq> [])
             [team_a\<lparr>team_name := [CHR 0xC2, CHR 0xA0, CHR '' '', CHR ''A'', CHR 0xE3, CHR 0x80, CHR 0x80]\<rparr>,
              team_a\<lparr>position := 2, team_name := ''B''\<rparr>]"
    by (simp add: team_a_def s)
  have n: "(Absent :: string raw) \<noteq> Bad" by simp
  show ?thesis
    using validation_accepts [OF h n, of "''Football''" "''Premier League''"]
    by (simp add: s team_a_def)
qed

section \<open>Properties of the extractor (C3, C10, C5)\<close>

declare retry_loop.simps [simp del]

lemma retry_loop_done:
  "\<not> int i < retries \<Longrightarrow> retry_loop arun now u nm cfg retries sv i = ([], None)"
  by (subst retry_loop.simps) simp

lemma retry_loop_Raises:
  "int i < retries \<Longrightarrow> arun i = Raises \<Longrightarrow>
   retry_loop arun now u nm cfg retries sv i =
     (Attempt u i # Log_attempt_failed (i + 1) #
        (if int i < retries - 1 then Sleep (2 ^ i) else Log_exhausted) #
        fst (retry_loop arun now u nm cfg retries sv (Suc i)),
      snd (retry_loop arun now u nm cfg retries sv (Suc i)))"
  by (subst retry_loop.simps) (simp add: split_beta)

lemma retry_loop_No_data:
  "int i < retries \<Longrightarrow> arun i = No_data \<Longrightarrow>
   retry_loop arun now u nm cfg retries sv i =
     (Attempt u i # Log_no_data # fst (retry_loop arun now u nm cfg retries sv (Suc i)),
      snd (retry_loop arun now u nm cfg retries sv (Suc i)))"
  by (subst retry_loop.simps) (simp add: split_beta)

lemma retry_loop_valid:
  "int i < retries \<Longrightarrow> arun i = Data p \<Longrightarrow> new_LeagueTableData p = Inr v \<Longrightarrow>
   retry_loop arun now u nm cfg retries sv i =
     (Attempt u i #
        (if sv then [Save_table (output_dir cfg) (table_filename nm (now i)) v] else []),
      Some v)"
  by (subst retry_loop.simps) simp

lemma retry_loop_invalid:
  "int i < retries \<Longrightarrow> arun i = Data p \<Longrightarrow> new_LeagueTableData p = Inl errors \<Longrightarrow>
   retry_loop arun now u nm cfg retries sv i =
     (Attempt u i # Log_validation_failed errors #
        (if sv then [Save_debug (output_dir cfg) (debug_filename (now i)) p] else []) @
        fst (retry_loop arun now u nm cfg retries sv (Suc i)),
      snd (retry_loop arun now u nm cfg retries sv (Suc i)))"
  by (subst retry_loop.simps) (simp add: split_beta)

lemma attempts_simps [simp]:
  "attempts [] = 0"
  "attempts (Attempt u i # evs) = Suc (attempts evs)"
  "attempts (Log_attempt_failed n # evs) = attempts evs"
  "attempts (Sleep n # evs) = attempts evs"
  "attempts (Log_exhausted # evs) = attempts evs"
  "attempts (Log_no_data # evs) = attempts evs"
  "attempts (Log_validation_failed es # evs) = attempts evs"
  "attempts (Save_table d f v # evs) = attempts evs"
  "attempts (Save_debug d f p # evs) = attempts evs"
  "attempts (Mkdir d # evs) = attempts evs"
  "attempts (Log_missing_key # evs) = attempts evs"
  "attempts (evs @ evs') = attempts evs + attempts evs'"
  by (simp_all add: attempts_def is_attempt_def)

lemma sleeps_append [simp]: "sleeps (evs @ evs') = sleeps evs @ sleeps evs'"
  by (induction evs rule: sleeps.induct) simp_all

text \<open>The loop makes at most one attempt for each index left.\<close>

lemma retry_loop_attempts:
  "int (attempts (fst (retry_loop arun now u nm cfg retries sv i))) \<le> max 0 (retries - int i)"
proof (induction arun now u nm cfg retries sv i rule: retry_loop.induct)
  case (1 arun now u nm cfg retries sv i)
  show ?case
  proof (cases "int i < retries")
    case False
    then show ?thesis by (simp add: retry_loop_done)
  next
    case True
    show ?thesis
    proof (cases "arun i")
      case Raises
      with True "1.IH"(1) show ?thesis by (simp add: retry_loop_Raises)
    next
      case No_data
      with True "1.IH"(2) show ?thesis by (simp add: retry_loop_No_data)
    next
      case (Data p)
      show ?thesis
      proof (cases "new_LeagueTableData p")
        case (Inl errors)
        have "int (attempts (fst (retry_loop arun now u nm cfg retries sv (Suc i))))
                \<le> max 0 (retries - int (Suc i))"
          using "1.IH"(3) True Data Inl by simp
        with True Data Inl show ?thesis by (cases sv) (simp_all add: retry_loop_invalid)
      next
        case (Inr v)
        with True Data show ?thesis by (simp add: retry_loop_valid)
      qed
    qed
  qed
qed

lemma retry_loop_all_fail:
  "(\<forall>j. int j < retries \<longrightarrow> attempt_fails (arun j)) \<Longrightarrow>
   snd (retry_loop arun now u nm cfg retries sv i) = None
   \<and> int (attempts (fst (retry_loop arun now u nm cfg retries sv i))) = max 0 (retries - int i)"
proof (induction arun now u nm cfg retries sv i rule: retry_loop.induct)
  case (1 arun now u nm cfg retries sv i)
  show ?case
  proof (cases "int i < retries")
    case False
    then show ?thesis by (simp add: retry_loop_done)
  next
    case True
    show ?thesis
    proof (cases "arun i")
      case Raises
      with True "1.IH"(1) "1.prems" show ?thesis by (simp add: retry_loop_Raises)
    next
      case No_data
      with True "1.IH"(2) "1.prems" show ?thesis by (simp add: retry_loop_No_data)
    next
      case (Data p)
      with True "1.prems" have "isl (new_LeagueTableData p)"
        by (auto simp: attempt_fails_def)
      then obtain errors where "new_LeagueTableData p = Inl errors"
        by (cases "new_LeagueTableData p") auto
      then have "snd (retry_loop arun now u nm cfg retries sv (Suc i)) = None
          \<and> int (attempts (fst (retry_loop arun now u nm cfg retries sv (Suc i))))
              = max 0 (retries - int (Suc i))"
        using "1.IH"(3) True Data "1.prems" by simp
      with True Data \<open>new_LeagueTableData p = Inl errors\<close> show ?thesis
        by (cases sv) (simp_all add: retry_loop_invalid)
    qed
  qed
qed


lemma scrape_league_table_no_key:
  "api_key_missing env \<Longrightarrow>
   scrape_league_table env arun now u nm config retries sv =
     ((case config of None \<Rightarrow> [Mkdir (output_dir default_config)] | Some c \<Rightarrow> []) @ [Log_missing_key],
      None)"
  by (cases config) (simp_all add: scrape_league_table_def)

lemma scrape_league_table_key:
  "\<not> api_key_missing env \<Longrightarrow>
   scrape_league_table env arun now u nm config retries sv =
     ((case config of None \<Rightarrow> [Mkdir (output_dir default_config)] | Some c \<Rightarrow> []) @
        fst (retry_loop arun now u nm (case config of None \<Rightarrow> default_config | Some c \<Rightarrow> c)
               retries sv 0),
      snd (retry_loop arun now u nm (case config of None \<Rightarrow> default_config | Some c \<Rightarrow> c)
             retries sv 0))"
  by (cases config) (simp_all add: scrape_league_table_def split_beta)

lemma attempts_prelude [simp]:
  "attempts (case config of None \<Rightarrow> [Mkdir d] | Some c \<Rightarrow> []) = 0"
  by (cases config) simp_all

text \<open>
  C3: in a call of \<open>scrape_league_table\<close> with \<open>retries = N\<close>, no attempt is made when
  \<open>N < 1\<close>; at most \<open>N\<close> attempts are made in all; and when every attempt fails (the crawler
  raises, extracts nothing, or extracts a payload that validation rejects), the value
  returned is \<open>None\<close>. The function has no other way out: its result is always a trace and
  an optional table.
\<close>

theorem retry_budget:
  "case scrape_league_table env arun now start_url league_name config retries save_to_file of
     (evs, res) \<Rightarrow>
       (retries < 1 \<longrightarrow> attempts evs = 0)
       \<and> (1 \<le> retries \<longrightarrow> int (attempts evs) \<le> retries)
       \<and> ((\<forall>i. int i < retries \<longrightarrow> attempt_fails (arun i)) \<longrightarrow> res = None)"
proof (cases "api_key_missing env")
  case True
  then show ?thesis by (simp add: scrape_league_table_no_key)
next
  case False
  let ?cfg = "case config of None \<Rightarrow> default_config | Some c \<Rightarrow> c"
  have b: "int (attempts (fst (retry_loop arun now start_url league_name ?cfg retries save_to_file 0)))
             \<le> max 0 (retries - int 0)"
    by (rule retry_loop_attempts)
  have f: "(\<forall>i. int i < retries \<longrightarrow> attempt_fails (arun i)) \<longrightarrow>
           snd (retry_loop arun now start_url league_name ?cfg retries save_to_file 0) = None"
    using retry_loop_all_fail by blast
  from b f False show ?thesis
    by (auto simp add: scrape_league_table_key)
qed

theorem retry_budget_witness:
  "(1::int) \<le> 2 \<and> attempt_fails (always_raises 0) \<and> attempt_fails (always_raises 1)
   \<and> int (attempts (fst (scrape_league_table env_with_key always_raises clock ''u'' ''Premier League''
                            None 2 True))) \<le> 2
   \<and> snd (scrape_league_table env_with_key always_raises clock ''u'' ''Premier League'' None 2 True)
       = None
   \<and> (0::int) < 1
   \<and> attempts (fst (scrape_league_table env_with_key always_raises clock ''u'' ''Premier League''
                       None 0 True)) = 0"
proof -
  have h: "\<forall>i. int i < 2 \<longrightarrow> attempt_fails (always_raises i)"
    by (simp add: attempt_fails_def always_raises_def)
  have "attempt_fails (always_raises 0) \<and> attempt_fails (always_raises 1)"
    by (simp add: attempt_fails_def always_raises_def)
  with h retry_budget [where env = env_with_key and arun = always_raises and now = clock
      and start_url = "''u''" and league_name = "''Premier League''" and config = None
      and retries = 2 and save_to_file = True]
    retry_budget [where env = env_with_key and arun = always_raises and now = clock
      and start_url = "''u''" and league_name = "''Premier League''" and config = None
      and retries = 0 and save_to_file = True]
  show ?thesis
    by (simp add: split_beta)
qed


lemma is_artifact_simps [simp]:
  "is_artifact (Save_table d f v)" "is_artifact (Save_debug d f p)"
  "\<not> is_artifact (Attempt u i)" "\<not> is_artifact (Log_attempt_failed n)" "\<not> is_artifact (Sleep n)"
  "\<not> is_artifact Log_exhausted" "\<not> is_artifact Log_no_data" "\<not> is_artifact (Log_validation_failed es)"
  "\<not> is_artifact (Mkdir d)" "\<not> is_artifact Log_missing_key"
  by (simp_all add: is_artifact_def)

lemma writes_prelude [simp]:
  "filter is_artifact (case config of None \<Rightarrow> [Mkdir d] | Some c \<Rightarrow> []) = []"
  by (cases config) simp_all

lemma is_data_simps [simp]:
  "\<not> is_data Raises" "\<not> is_data No_data" "is_data (Data p)"
  by (simp_all add: is_data_def)

lemma upt_plus_Suc: "[i..<Suc (i + a)] = i # [Suc i..<Suc (i + a)]"
  by (simp add: upt_conv_Cons del: upt_Suc)

lemma retry_loop_writes:
  "length (filter is_artifact (fst (retry_loop arun now u nm cfg retries sv i))) =
     (if sv then length (filter (\<lambda>j. is_data (arun j))
                           [i..<i + attempts (fst (retry_loop arun now u nm cfg retries sv i))])
      else 0)"
proof (induction arun now u nm cfg retries sv i rule: retry_loop.induct)
  case (1 arun now u nm cfg retries sv i)
  let ?rest = "fst (retry_loop arun now u nm cfg retries sv (Suc i))"
  show ?case
  proof (cases "int i < retries")
    case False
    then show ?thesis by (simp add: retry_loop_done)
  next
    case True
    show ?thesis
    proof (cases "arun i")
      case Raises
      have IH: "length (filter is_artifact ?rest) =
           (if sv then length (filter (\<lambda>j. is_data (arun j)) [Suc i..<Suc (i + attempts ?rest)])
            else 0)"
        using "1.IH"(1) True Raises by simp
      from True Raises IH show ?thesis
        by (cases sv) (simp_all add: retry_loop_Raises upt_plus_Suc del: upt_Suc)
    next
      case No_data
      have IH: "length (filter is_artifact ?rest) =
           (if sv then length (filter (\<lambda>j. is_data (arun j)) [Suc i..<Suc (i + attempts ?rest)])
            else 0)"
        using "1.IH"(2) True No_data by simp
      from True No_data IH show ?thesis
        by (cases sv) (simp_all add: retry_loop_No_data upt_plus_Suc del: upt_Suc)
    next
      case (Data p)
      show ?thesis
      proof (cases "new_LeagueTableData p")
        case (Inl errors)
        have IH: "length (filter is_artifact ?rest) =
           (if sv then length (filter (\<lambda>j. is_data (arun j)) [Suc i..<Suc (i + attempts ?rest)])
            else 0)"
          using "1.IH"(3) True Data Inl by simp
        from True Data Inl IH show ?thesis
          by (cases sv) (simp_all add: retry_loop_invalid upt_plus_Suc del: upt_Suc)
      next
        case (Inr v)
        with True Data show ?thesis
          by (simp add: retry_loop_valid)
      qed
    qed
  qed
qed

text \<open>
  C10, as the claim words it, fails: the two artifacts are not the only files the extractor
  writes. Every log line of the function is appended to \<open>scraper.log\<close>, with the flag on or
  off: a call with \<open>save_to_file\<close> off whose one attempt extracts nothing appends the warning
  of line 275.
\<close>

theorem log_written_without_save_counterexample:
  "scrape_league_table env_with_key always_empty clock ''u'' ''Premier League''
       (Some default_config) 1 False
     = ([Attempt ''u'' 0, Log_no_data], None)
   \<and> writes_file Log_no_data
   \<and> \<not> spec_no_file_written [Attempt ''u'' 0, Log_no_data]"
proof -
  have k: "\<not> api_key_missing env_with_key"
    by (simp add: api_key_missing_def env_with_key_def)
  have "retry_loop always_empty clock ''u'' ''Premier League'' default_config 1 False 0
      = ([Attempt ''u'' 0, Log_no_data], None)"
    by (simp add: retry_loop_No_data always_empty_def retry_loop_done)
  with k show ?thesis
    by (simp add: scrape_league_table_key writes_file_def is_log_def spec_no_file_written_def)
qed

text \<open>
  C10, amended: the two artifacts of \<open>scrape_league_table\<close> are guarded by \<open>save_to_file\<close>,
  exactly. With the flag off the trace holds neither the write of a table nor that of a
  debug dump, in any outcome; with the flag on it holds one such write for each attempt in
  which the crawler returned a payload.
\<close>

theorem writes_guarded_by_flag:
  "length (filter is_artifact (fst (scrape_league_table env arun now start_url league_name config
                                   retries save_to_file))) =
     (if save_to_file
      then length (filter (\<lambda>i. is_data (arun i))
             [0..<attempts (fst (scrape_league_table env arun now start_url league_name config
                                   retries save_to_file))])
      else 0)"
proof (cases "api_key_missing env")
  case True
  then show ?thesis by (simp add: scrape_league_table_no_key)
next
  case False
  then show ?thesis
    using retry_loop_writes [of arun now start_url league_name
        "case config of None \<Rightarrow> default_config | Some c \<Rightarrow> c" retries save_to_file 0]
    by (simp add: scrape_league_table_key)
qed

lemma enumerate_member: "x \<in> set xs \<Longrightarrow> \<exists>i. (i, x) \<in> set (enumerate n xs)"
  by (induction xs arbitrary: n) auto

lemma negative_points_entry:
  assumes "raw_points e = Given n" "n < 0"
  shows "\<exists>es. new_LeagueTableEntry e = Inl es"
proof (cases "new_LeagueTableEntry e")
  case (Inl es)
  then show ?thesis by blast
next
  case (Inr v)
  from then_validate_Inr [OF new_LeagueTableEntry_Inr(3) [OF Inr]] assms
  have "validate_points n = Inr (points v)" by auto
  with assms(2) show ?thesis by (simp add: validate_points_def)
qed

lemma negative_points_invalid:
  assumes "raw_standings p = Given items" "Given e \<in> set items" "raw_points e = Given n" "n < 0"
  shows "\<exists>errors. new_LeagueTableData p = Inl errors"
proof (cases "new_LeagueTableData p")
  case (Inl errors)
  then show ?thesis by blast
next
  case (Inr d)
  define results where "results = map (\<lambda>(i, x). new_item i x) (enumerate 0 items)"
  from new_LeagueTableData_standings [OF Inr] assms(1)
  have "new_standings (Given items) = Inr (standings d)" by simp
  then have e: "concat (map (\<lambda>res. case res of Inl es \<Rightarrow> es | Inr _ \<Rightarrow> []) results) = []"
    unfolding new_standings_def Let_def results_def required_def by (auto split: if_splits)
  from enumerate_member [OF assms(2), of 0]
  obtain i where "(i, Given e) \<in> set (enumerate 0 items)" by blast
  then have "new_item i (Given e) \<in> set results"
    unfolding results_def by force
  with e have "(case new_item i (Given e) of Inl es \<Rightarrow> es | Inr _ \<Rightarrow> []) = []" by auto
  then obtain v where v: "new_item i (Given e) = Inr v"
    using item_errors_Nil by blast
  from negative_points_entry [OF assms(3,4)] obtain es where "new_LeagueTableEntry e = Inl es"
    by blast
  then have "isl (new_item i (Given e))" by (simp add: new_item_def)
  with v show ?thesis by simp
qed

text \<open>
  C5, as the claim words it, fails: the debug dump is guarded by \<open>save_to_file\<close>. A call
  with the flag off that receives a payload with \<open>points = -1\<close> logs the validation failure
  and writes no debug dump.
\<close>

theorem no_debug_without_save_counterexample:
  "raw_standings negative_payload = Given [Given (entry_payload (team_a\<lparr>points := - 1\<rparr>))]
   \<and> raw_points (entry_payload (team_a\<lparr>points := - 1\<rparr>)) = Given (- 1)
   \<and> scrape_league_table env_with_key always_negative clock ''u'' ''Premier League''
        (Some default_config) 1 False
      = ([Attempt ''u'' 0,
          Log_validation_failed [([Attr ''standings'', Item 0, Attr ''points''],
                                  Value_error ''Points cannot be negative'')]],
         None)"
proof -
  have v: "new_LeagueTableData negative_payload
             = Inl [([Attr ''standings'', Item 0, Attr ''points''],
                     Value_error ''Points cannot be negative'')]"
    by (simp add: negative_payload_def payload_of_def team_a_def entry_payload_def
      new_LeagueTableData_def new_standings_def new_item_def new_LeagueTableEntry_def
      required_def optional_def then_validate_def errors_at_def validate_position_def
      validate_points_def validate_team_name_def strip_examples enumerate_eq_zip
      Let_def)
  have k: "\<not> api_key_missing env_with_key"
    by (simp add: api_key_missing_def env_with_key_def)
  have "retry_loop always_negative clock ''u'' ''Premier League'' default_config 1 False 0
      = ([Attempt ''u'' 0,
          Log_validation_failed [([Attr ''standings'', Item 0, Attr ''points''],
                                  Value_error ''Points cannot be negative'')]],
         None)"
    by (simp add: retry_loop_invalid [where p = negative_payload] v always_negative_def
          retry_loop_done)
  with k show ?thesis
    by (simp add: scrape_league_table_key negative_payload_def payload_of_def entry_payload_def)
qed

text \<open>
  C5, amended: for every payload containing a standings entry whose points value is
  negative, validation fails; the attempt that received it writes no table, writes the
  raw payload as a debug dump when \<open>save_to_file\<close> is set and no debug dump when it is not,
  and is a failed attempt: the loop goes on with the next iteration, and what the call
  returns is what the remaining iterations return.
\<close>

theorem negative_points_rejected:
  assumes "raw_standings p = Given items" and "Given e \<in> set items"
    and "raw_points e = Given n" and "n < 0"
    and "arun i = Data p" and "int i < retries"
  shows "\<exists>errors. new_LeagueTableData p = Inl errors
           \<and> retry_loop arun now start_url league_name config retries save_to_file i =
               (Attempt start_url i # Log_validation_failed errors #
                  (if save_to_file
                   then [Save_debug (output_dir config) (debug_filename (now i)) p] else []) @
                  fst (retry_loop arun now start_url league_name config retries save_to_file (Suc i)),
                snd (retry_loop arun now start_url league_name config retries save_to_file (Suc i)))"
proof -
  from negative_points_invalid [OF assms(1-4)] obtain errors
    where "new_LeagueTableData p = Inl errors" by blast
  with assms(5,6) show ?thesis
    by (simp add: retry_loop_invalid)
qed

theorem negative_points_rejected_witness:
  "retry_loop always_negative clock ''u'' ''Premier League'' default_config 1 True 0 =
     ([Attempt ''u'' 0,
       Log_validation_failed [([Attr ''standings'', Item 0, Attr ''points''],
                               Value_error ''Points cannot be negative'')],
       Save_debug ''output'' ''debug_raw_20250101_120000.json'' negative_payload],
      None)"
proof -
  have v: "new_LeagueTableData negative_payload
             = Inl [([Attr ''standings'', Item 0, Attr ''points''],
                     Value_error ''Points cannot be negative'')]"
    by (simp add: negative_payload_def payload_of_def team_a_def entry_payload_def
      new_LeagueTableData_def new_standings_def new_item_def new_LeagueTableEntry_def
      required_def optional_def then_validate_def errors_at_def validate_position_def
      validate_points_def validate_team_name_def strip_examples enumerate_eq_zip
      Let_def)
  have h1: "raw_standings negative_payload = Given [Given (entry_payload (team_a\<lparr>points := - 1\<rparr>))]"
    by (simp add: negative_payload_def payload_of_def)
  have h2: "Given (entry_payload (team_a\<lparr>points := - 1\<rparr>))
              \<in> set [Given (entry_payload (team_a\<lparr>points := - 1\<rparr>))]"
    by simp
  have h3: "raw_points (entry_payload (team_a\<lparr>points := - 1\<rparr>)) = Given (- 1)"
    by (simp add: entry_payload_def)
  have h4: "(- 1 :: int) < 0" by simp
  have h5: "always_negative 0 = Data negative_payload" by (simp add: always_negative_def)
  have h6: "int 0 < 1" by simp
  from h1 h2 h3 h4 h5 h6
    negative_points_rejected [where p = negative_payload
      and items = "[Given (entry_payload (team_a\<lparr>points := - 1\<rparr>))]"
      and e = "entry_payload (team_a\<lparr>points := - 1\<rparr>)" and n = "- 1"
      and arun = always_negative and i = 0 and retries = 1 and now = clock
      and start_url = "''u''" and league_name = "''Premier League''"
      and config = default_config and save_to_file = True]
  show ?thesis
    by (simp add: v retry_loop_done default_config_def debug_filename_def clock_def)
qed

section \<open>Backoff (C4)\<close>

lemma sleeps_prelude [simp]:
  "sleeps (case config of None \<Rightarrow> [Mkdir d] | Some c \<Rightarrow> []) = []"
  by (cases config) simp_all





section \<open>Properties of the batch (C9, C8)\<close>

lemma is_batch_event_simps [simp]:
  "\<not> is_batch_event (Mkdir d)" "\<not> is_batch_event Log_missing_key"
  "\<not> is_batch_event (Attempt u i)" "\<not> is_batch_event (Save_table d f v)"
  "\<not> is_batch_event (Save_debug d f p)" "\<not> is_batch_event (Log_validation_failed es)"
  "\<not> is_batch_event Log_no_data" "\<not> is_batch_event (Log_attempt_failed n)"
  "\<not> is_batch_event (Sleep n)" "\<not> is_batch_event Log_exhausted"
  "is_batch_event (Log_no_url nm var)" "is_batch_event (Log_scraped nm)"
  "is_batch_event (Log_failed nm)" "is_batch_event (Log_summary a b)"
  "is_batch_event (Log_tier t)" "is_batch_event (Log_status ok nm c)"
  by (simp_all add: is_batch_event_def)

lemma retry_loop_no_batch_events:
  "filter is_batch_event (fst (retry_loop arun now u nm cfg retries sv i)) = []"
proof (induction arun now u nm cfg retries sv i rule: retry_loop.induct)
  case (1 arun now u nm cfg retries sv i)
  let ?rest = "fst (retry_loop arun now u nm cfg retries sv (Suc i))"
  show ?case
  proof (cases "int i < retries")
    case False
    then show ?thesis by (simp add: retry_loop_done)
  next
    case True
    show ?thesis
    proof (cases "arun i")
      case Raises
      have "filter is_batch_event ?rest = []" using "1.IH"(1) True Raises by simp
      with True Raises show ?thesis
        by (simp add: retry_loop_Raises)
    next
      case No_data
      have "filter is_batch_event ?rest = []" using "1.IH"(2) True No_data by simp
      with True No_data show ?thesis
        by (simp add: retry_loop_No_data)
    next
      case (Data p)
      show ?thesis
      proof (cases "new_LeagueTableData p")
        case (Inl errors)
        have "filter is_batch_event ?rest = []" using "1.IH"(3) True Data Inl by simp
        with True Data Inl show ?thesis
          by (simp add: retry_loop_invalid)
      next
        case (Inr v)
        with True Data show ?thesis
          by (simp add: retry_loop_valid)
      qed
    qed
  qed
qed

lemma scrape_league_table_no_batch_events:
  "filter is_batch_event (fst (scrape_league_table env arun now u nm config retries sv)) = []"
proof (cases "api_key_missing env")
  case True
  then show ?thesis
    by (cases config) (simp_all add: scrape_league_table_no_key)
next
  case False
  then show ?thesis
    by (cases config)
       (simp_all add: scrape_league_table_key retry_loop_no_batch_events)
qed

lemma failed_append: "failed (evs @ evs') = failed evs + failed evs'"
  by (simp add: failed_def)

lemma skipped_append: "skipped (evs @ evs') = skipped evs + skipped evs'"
  by (simp add: skipped_def)

lemma no_batch_events_counts:
  assumes "filter is_batch_event evs = []"
  shows "failed evs = 0" and "skipped evs = 0"
    and "summary_counts (evs @ evs') = summary_counts evs'"
proof -
  have a: "\<forall>ev \<in> set evs. \<not> is_batch_event ev"
    using assms by (simp add: filter_empty_conv)
  show "failed evs = 0"
    unfolding failed_def using a
    by (auto simp add: filter_empty_conv split: event.splits)
  show "skipped evs = 0"
    unfolding skipped_def using a
    by (auto simp add: filter_empty_conv split: event.splits)
  show "summary_counts (evs @ evs') = summary_counts evs'"
    using a
  proof (induction evs)
    case Nil
    show ?case by simp
  next
    case (Cons ev evs)
    then have "\<not> is_batch_event ev" by simp
    then have "summary_counts (ev # evs @ evs') = summary_counts (evs @ evs')"
      by (cases ev) simp_all
    with Cons show ?case by simp
  qed
qed

lemma update_fresh: "k \<notin> fst ` set al \<Longrightarrow> AList.update k v al = al @ [(k, v)]"
  by (induction al) auto


lemma scrape_leagues_skip:
  "resolve_url env base k (name info) = None \<Longrightarrow>
   scrape_leagues env arun now base all ((k, info) # rest) acc =
     (Log_no_url (name info) (get_league_env_var_name k)
        # fst (scrape_leagues env arun now base all rest acc),
      snd (scrape_leagues env arun now base all rest acc))"
  by (simp add: split_beta)

lemma scrape_leagues_step:
  "resolve_url env base k (name info) = Some u \<Longrightarrow>
   scrape_leagues env arun now base all ((k, info) # rest) acc =
     (fst (scrape_league_table env (arun k) (now k) u (name info) (Some (custom_config env)) 3 True)
        @ (if snd (scrape_league_table env (arun k) (now k) u (name info)
                     (Some (custom_config env)) 3 True) \<noteq> None
           then Log_scraped (name info) else Log_failed (name info))
        # (if k \<noteq> fst (last all) then [Sleep 3] else [])
        @ fst (scrape_leagues env arun now base all rest
                 (AList.update k (snd (scrape_league_table env (arun k) (now k) u (name info)
                                         (Some (custom_config env)) 3 True)) acc)),
      snd (scrape_leagues env arun now base all rest
             (AList.update k (snd (scrape_league_table env (arun k) (now k) u (name info)
                                     (Some (custom_config env)) 3 True)) acc)))"
  by (simp add: split_beta Let_def)

declare scrape_leagues.simps [simp del]

lemma failed_simps [simp]:
  "failed [] = 0" "failed (Log_failed nm # evs) = Suc (failed evs)"
  "failed (Log_scraped nm # evs) = failed evs" "failed (Log_no_url nm var # evs) = failed evs"
  "failed (Sleep n # evs) = failed evs" "failed (Log_missing_key # evs) = failed evs"
  by (simp_all add: failed_def)

lemma skipped_simps [simp]:
  "skipped [] = 0" "skipped (Log_no_url nm var # evs) = Suc (skipped evs)"
  "skipped (Log_scraped nm # evs) = skipped evs" "skipped (Log_failed nm # evs) = skipped evs"
  "skipped (Sleep n # evs) = skipped evs" "skipped (Log_missing_key # evs) = skipped evs"
  by (simp_all add: skipped_def)

lemma scrape_leagues_no_summary:
  "summary_counts (fst (scrape_leagues env arun now base all rest acc) @ evs') = summary_counts evs'"
proof (induction rest arbitrary: acc)
  case Nil
  show ?case by (simp add: scrape_leagues.simps)
next
  case (Cons l rest)
  obtain k info where l: "l = (k, info)" by (cases l)
  show ?case
  proof (cases "resolve_url env base k (name info)")
    case None
    then show ?thesis by (simp add: l scrape_leagues_skip Cons.IH)
  next
    case (Some u)
    let ?T = "scrape_league_table env (arun k) (now k) u (name info) (Some (custom_config env)) 3 True"
    have t: "\<And>evs''. summary_counts (fst ?T @ evs'') = summary_counts evs''"
      by (rule no_batch_events_counts(3)) (rule scrape_league_table_no_batch_events)
    show ?thesis
      by (simp add: l scrape_leagues_step [OF Some] t Cons.IH)
  qed
qed

lemma scrape_leagues_results:
  assumes "distinct (map fst rest)" and "fst ` set rest \<inter> fst ` set acc = {}"
  shows "\<exists>rs. snd (scrape_leagues env arun now base all rest acc) = acc @ rs
           \<and> map fst rs = map fst (filter (\<lambda>l. resolve_url env base (fst l) (name (snd l)) \<noteq> None) rest)
           \<and> failed (fst (scrape_leagues env arun now base all rest acc))
               = length (filter (\<lambda>(k, r). r = None) rs)
           \<and> skipped (fst (scrape_leagues env arun now base all rest acc))
               = length (filter (\<lambda>l. resolve_url env base (fst l) (name (snd l)) = None) rest)"
  using assms
proof (induction rest arbitrary: acc)
  case Nil
  show ?case by (simp add: scrape_leagues.simps)
next
  case (Cons l rest)
  obtain k info where l: "l = (k, info)" by (cases l)
  from Cons.prems l have d: "distinct (map fst rest)" and nk: "k \<notin> fst ` set rest"
    and na: "k \<notin> fst ` set acc" and dj: "fst ` set rest \<inter> fst ` set acc = {}"
    by auto
  show ?case
  proof (cases "resolve_url env base k (name info)")
    case None
    from Cons.IH [OF d dj] obtain rs where
      "snd (scrape_leagues env arun now base all rest acc) = acc @ rs"
      "map fst rs = map fst (filter (\<lambda>l. resolve_url env base (fst l) (name (snd l)) \<noteq> None) rest)"
      "failed (fst (scrape_leagues env arun now base all rest acc))
               = length (filter (\<lambda>(k, r). r = None) rs)"
      "skipped (fst (scrape_leagues env arun now base all rest acc))
               = length (filter (\<lambda>l. resolve_url env base (fst l) (name (snd l)) = None) rest)"
      by blast
    with None show ?thesis
      by (simp add: l scrape_leagues_skip)
  next
    case (Some u)
    define tev where "tev = fst (scrape_league_table env (arun k) (now k) u (name info)
                                   (Some (custom_config env)) 3 True)"
    define result where "result = snd (scrape_league_table env (arun k) (now k) u (name info)
                                         (Some (custom_config env)) 3 True)"
    have nb: "filter is_batch_event tev = []"
      unfolding tev_def by (rule scrape_league_table_no_batch_events)
    have f0: "failed tev = 0" and s0: "skipped tev = 0"
      using no_batch_events_counts(1,2) [OF nb] by simp_all
    have up: "AList.update k result acc = acc @ [(k, result)]"
      using na by (rule update_fresh)
    have step: "scrape_leagues env arun now base all (l # rest) acc =
        (tev @ (if result \<noteq> None then Log_scraped (name info) else Log_failed (name info))
           # (if k \<noteq> fst (last all) then [Sleep 3] else [])
           @ fst (scrape_leagues env arun now base all rest (acc @ [(k, result)])),
         snd (scrape_leagues env arun now base all rest (acc @ [(k, result)])))"
      unfolding l scrape_leagues_step [OF Some] tev_def [symmetric] result_def [symmetric] up
      by (rule refl)
    have dj': "fst ` set rest \<inter> fst ` set (acc @ [(k, result)]) = {}"
      using dj nk by auto
    from Cons.IH [OF d dj'] obtain rs where rs:
      "snd (scrape_leagues env arun now base all rest (acc @ [(k, result)])) = (acc @ [(k, result)]) @ rs"
      "map fst rs = map fst (filter (\<lambda>l. resolve_url env base (fst l) (name (snd l)) \<noteq> None) rest)"
      "failed (fst (scrape_leagues env arun now base all rest (acc @ [(k, result)])))
               = length (filter (\<lambda>(k, r). r = None) rs)"
      "skipped (fst (scrape_leagues env arun now base all rest (acc @ [(k, result)])))
               = length (filter (\<lambda>l. resolve_url env base (fst l) (name (snd l)) = None) rest)"
      by blast
    have "snd (scrape_leagues env arun now base all (l # rest) acc) = acc @ ((k, result) # rs)"
      unfolding step by (simp add: rs(1))
    moreover have "map fst ((k, result) # rs)
        = map fst (filter (\<lambda>l. resolve_url env base (fst l) (name (snd l)) \<noteq> None) (l # rest))"
      by (simp add: l Some rs(2))
    moreover have "failed (fst (scrape_leagues env arun now base all (l # rest) acc))
        = length (filter (\<lambda>(k, r). r = None) ((k, result) # rs))"
      using rs(3) unfolding step by (cases result) (simp_all add: failed_append f0)
    moreover have "skipped (fst (scrape_leagues env arun now base all (l # rest) acc))
        = length (filter (\<lambda>l. resolve_url env base (fst l) (name (snd l)) = None) (l # rest))"
      using rs(4) unfolding step by (cases result) (simp_all add: l skipped_append s0 Some)
    ultimately show ?thesis by blast
  qed
qed


lemma is_summary_event_simps [simp]:
  "is_summary_event (Log_tier t)" "is_summary_event (Log_status ok nm c)"
  by (simp_all add: is_summary_event_def)

lemma status_lines_events: "status_lines members = Inr evs \<Longrightarrow> list_all is_summary_event evs"
proof (induction members arbitrary: evs)
  case Nil
  then show ?case by simp
next
  case (Cons m members)
  obtain k r where m: "m = (k, r)" by (cases m)
  from Cons.prems obtain info evs0 where "map_of EUROPEAN_LEAGUES k = Some info"
    and "status_lines members = Inr evs0"
    and "evs = Log_status (r \<noteq> None) (name info) (country info) # evs0"
    by (auto simp: m split: option.splits sum.splits)
  with Cons.IH [of evs0] show ?case
    by simp
qed

lemma tier_lines_events: "tier_lines groups ts = Inr evs \<Longrightarrow> list_all is_summary_event evs"
proof (induction ts arbitrary: evs)
  case Nil
  then show ?case by simp
next
  case (Cons t ts)
  from Cons.prems obtain members evs1 evs2 where "status_lines members = Inr evs1"
    and "tier_lines groups ts = Inr evs2" and "evs = Log_tier t # evs1 @ evs2"
    by (auto split: option.splits sum.splits)
  with Cons.IH [of evs2] status_lines_events [of members evs1] show ?case
    by simp
qed

lemma summary_events:
  "summary leagues results = Inr evs \<Longrightarrow>
   \<exists>rest. evs = Log_summary (successful results) (length leagues) # rest
          \<and> list_all is_summary_event rest"
  unfolding summary_def
  by (auto split: sum.splits dest: tier_lines_events)

lemma summary_event_counts:
  assumes "list_all is_summary_event evs"
  shows "failed evs = 0" and "skipped evs = 0" and "attempts evs = 0"
    and "filter is_artifact evs = []" and "count_list evs Log_missing_key = 0"
  using assms
  by (induction evs;
      auto simp add: failed_def skipped_def attempts_def is_attempt_def is_artifact_def
        is_summary_event_def split: event.splits)+

lemma run_batch_Inr:
  assumes "run_batch env arun now leagues = Inr (evs, results)"
  shows "\<exists>rest. evs = fst (scrape_leagues env arun now (environ_get env ''SPORTS_BASE_URL'' [])
                          leagues leagues [])
                 @ Log_summary (successful results) (length leagues) # rest
          \<and> list_all is_summary_event rest
          \<and> results = snd (scrape_leagues env arun now (environ_get env ''SPORTS_BASE_URL'' [])
                             leagues leagues [])"
  using assms unfolding run_batch_def Let_def
  by (auto simp add: split_beta split: sum.splits dest: summary_events)

text \<open>
  C9, amended: in every batch run over leagues with distinct keys, a league whose URL
  cannot be resolved is skipped with its own warning and gets no entry in the results, which
  hold exactly the leagues with a URL, in order; a league that failed after its retries is
  in the results with an absent value. The count line of the summary gives the number of
  successful leagues and the number of all leagues: the skipped and the failed ones are
  together what is missing between the two, and are not counted apart.
\<close>

theorem skipped_leagues_in_summary:
  assumes "distinct (map fst leagues)" and "run_batch env arun now leagues = Inr (evs, results)"
  shows "map fst results = map fst (filter (has_url env) leagues)
         \<and> skipped evs = length (filter (\<lambda>l. \<not> has_url env l) leagues)
         \<and> failed evs = length (filter (\<lambda>(k, r). r = None) results)
         \<and> summary_counts evs = Some (successful results, length leagues)
         \<and> length leagues = successful results + failed evs + skipped evs"
proof -
  let ?base = "environ_get env ''SPORTS_BASE_URL'' []"
  let ?S = "scrape_leagues env arun now ?base leagues leagues []"
  from run_batch_Inr [OF assms(2)] obtain rest where
    evs: "evs = fst ?S @ Log_summary (successful results) (length leagues) # rest"
    and rest: "list_all is_summary_event rest" and res: "results = snd ?S"
    by blast
  from scrape_leagues_results [OF assms(1), of "[]" env arun now ?base leagues]
  have keys: "map fst results = map fst (filter (has_url env) leagues)"
    and f: "failed (fst ?S) = length (filter (\<lambda>(k, r). r = None) results)"
    and s: "skipped (fst ?S) = length (filter (\<lambda>l. \<not> has_url env l) leagues)"
    by (auto simp add: res has_url_def [abs_def])
  have sk: "skipped evs = length (filter (\<lambda>l. \<not> has_url env l) leagues)"
    by (simp add: evs skipped_append skipped_def s [unfolded skipped_def]
        summary_event_counts(2) [OF rest, unfolded skipped_def])
  have fl: "failed evs = length (filter (\<lambda>(k, r). r = None) results)"
    by (simp add: evs failed_append failed_def f [unfolded failed_def]
        summary_event_counts(1) [OF rest, unfolded failed_def])
  have sc: "summary_counts evs = Some (successful results, length leagues)"
    by (simp add: evs scrape_leagues_no_summary)
  have "length results = length (filter (has_url env) leagues)"
    using keys by (metis length_map)
  moreover have "length results = successful results + length (filter (\<lambda>(k, r). r = None) results)"
  proof -
    have e1: "(\<lambda>(k :: string, r :: LeagueTableData option). r \<noteq> None) = (\<lambda>x. snd x \<noteq> None)"
      and e2: "(\<lambda>(k :: string, r :: LeagueTableData option). r = None) = (\<lambda>x. \<not> snd x \<noteq> None)"
      by (simp_all add: fun_eq_iff)
    show ?thesis
      unfolding successful_def e1 e2
      by (rule sum_length_filter_compl [symmetric])
  qed
  moreover have "length leagues = length (filter (has_url env) leagues)
        + length (filter (\<lambda>l. \<not> has_url env l) leagues)"
    using sum_length_filter_compl [of "has_url env" leagues] by simp
  ultimately have "length leagues = successful results + failed evs + skipped evs"
    using sk fl by simp
  with keys sk fl sc show ?thesis by simp
qed


theorem skipped_leagues_in_summary_witness:
  "run_batch env_key_one_url all_raise clocks [premier_league, la_liga]
     = Inr (trace_one_of_two, [(''Premier League'', None)])
   \<and> map fst [(''Premier League'', None :: LeagueTableData option)]
       = map fst (filter (has_url env_key_one_url) [premier_league, la_liga])
   \<and> skipped trace_one_of_two = 1
   \<and> failed trace_one_of_two = 1
   \<and> summary_counts trace_one_of_two = Some (0, 2)"
proof -
  have d: "distinct (map fst [premier_league, la_liga])"
    by (simp add: premier_league_def la_liga_def)
  have rb: "run_batch env_key_one_url all_raise clocks [premier_league, la_liga]
     = Inr (trace_one_of_two, [(''Premier League'', None)])"
    by code_simp
  from skipped_leagues_in_summary [OF d rb] rb show ?thesis
    by (simp add: successful_def)
qed

text \<open>
  C9, as the claim words it, fails in its second half: the summary has no count of the
  unconfigured leagues. A run whose only league has no URL and a run whose only league
  fails all its attempts print the same count line, 0 of 1.
\<close>

theorem summary_lumps_skipped_and_failed_counterexample:
  "main env_key_no_url all_raise clocks = Inr (trace_unconfigured, [])
   \<and> main env_key_base all_raise clocks = Inr (trace_exhausted, [(''Premier League'', None)])
   \<and> summary_counts trace_unconfigured = Some (0, 1)
   \<and> summary_counts trace_exhausted = Some (0, 1)
   \<and> skipped trace_unconfigured = 1 \<and> failed trace_unconfigured = 0
   \<and> skipped trace_exhausted = 0 \<and> failed trace_exhausted = 1"
  by code_simp



















end
